theory Spec2Isabelle
  imports Complex_Main
begin

section \<open>Programs with state and exceptions\<close>

text \<open>
  The tuner of \<^verbatim>\<open>nanotune/device_tuner/tuner.py\<close> mutates hardware and its own settings and
  may raise at almost every call. A statement of the source is a function from the state
  before to the state after together with its outcome: \<open>Inl e\<close> when it raised \<open>e\<close>,
  \<open>Inr x\<close> when it completed with value \<open>x\<close>. The state is kept on both paths, since
  what was mutated before a raise stays mutated.

  Voltages and readings are Python floats in the source; they are exact reals here.
\<close>

datatype error =
    KeyError
  | TypeError
  | AttributeError
  | ZeroDivisionError
  | CollaboratorFailure string

type_synonym ('s, 'a) prog = "'s \<Rightarrow> 's \<times> (error + 'a)"

definition ret :: "'a \<Rightarrow> ('s, 'a) prog" where
  "ret x = (\<lambda>s. (s, Inr x))"

definition raise :: "error \<Rightarrow> ('s, 'a) prog" where
  "raise e = (\<lambda>s. (s, Inl e))"

definition and_then :: "('s, 'a) prog \<Rightarrow> ('a \<Rightarrow> ('s, 'b) prog) \<Rightarrow> ('s, 'b) prog" where
  "and_then m f = (\<lambda>s. case m s of (s', Inl e) \<Rightarrow> (s', Inl e) | (s', Inr x) \<Rightarrow> f x s')"

text \<open>
  \<^verbatim>\<open>try: body finally: handler\<close>. The handler runs on every exit of the body. When the
  handler raises, its exception is the one that propagates; otherwise the outcome of the
  body (its value or its exception) does.
\<close>

definition try_finally :: "('s, 'a) prog \<Rightarrow> ('s, unit) prog \<Rightarrow> ('s, 'a) prog" where
  "try_finally body handler =
     (\<lambda>s. case body s of (s1, r) \<Rightarrow>
        (case handler s1 of (s2, Inl e) \<Rightarrow> (s2, Inl e) | (s2, Inr _) \<Rightarrow> (s2, r)))"


section \<open>Rollback scopes\<close>

text \<open>
  \<^verbatim>\<open>
  @contextmanager
  def set_back_voltages(gates):
      initial_voltages = []
      for gate in gates:
          initial_voltages.append(gate.dc_voltage())
      try:
          yield
      finally:
          for ig, gate in enumerate(gates):
              gate.dc_voltage(initial_voltages[ig])
  \<close>
  The class \<^verbatim>\<open>Gate\<close> is not part of the sources at hand, so the getter and the setter of
  a gate are parameters: \<open>getter g s\<close> is what \<^verbatim>\<open>gate.dc_voltage()\<close> returns (or raises) in
  state \<open>s\<close>, \<open>setter g v\<close> is the statement \<^verbatim>\<open>gate.dc_voltage(v)\<close>. The block under the
  \<^verbatim>\<open>with\<close> is the parameter \<open>body\<close>.
\<close>

fun read_each :: "('g \<Rightarrow> 's \<Rightarrow> error + 'v) \<Rightarrow> 'g list \<Rightarrow> 's \<Rightarrow> error + 'v list" where
  "read_each getter [] s = Inr []"
| "read_each getter (g # gs) s =
     (case getter g s of
        Inl e \<Rightarrow> Inl e
      | Inr v \<Rightarrow> (case read_each getter gs s of Inl e \<Rightarrow> Inl e | Inr vs \<Rightarrow> Inr (v # vs)))"

fun restore_each :: "('g \<Rightarrow> 'v \<Rightarrow> ('s, unit) prog) \<Rightarrow> ('g \<times> 'v) list \<Rightarrow> ('s, unit) prog" where
  "restore_each setter [] s = (s, Inr ())"
| "restore_each setter ((g, v) # rest) s =
     (case setter g v s of
        (s', Inl e) \<Rightarrow> (s', Inl e)
      | (s', Inr _) \<Rightarrow> restore_each setter rest s')"

definition set_back_voltages ::
  "('g \<Rightarrow> 's \<Rightarrow> error + real) \<Rightarrow> ('g \<Rightarrow> real \<Rightarrow> ('s, unit) prog) \<Rightarrow> 'g list \<Rightarrow>
   ('s, 'a) prog \<Rightarrow> ('s, 'a) prog" where
  "set_back_voltages getter setter gates body =
     (\<lambda>s. case read_each getter gates s of
        Inl e \<Rightarrow> (s, Inl e)
      | Inr initial_voltages \<Rightarrow>
          try_finally body (restore_each setter (zip gates initial_voltages)) s)"

definition set_back_valid_ranges ::
  "('g \<Rightarrow> 's \<Rightarrow> error + real \<times> real) \<Rightarrow> ('g \<Rightarrow> real \<times> real \<Rightarrow> ('s, unit) prog) \<Rightarrow> 'g list \<Rightarrow>
   ('s, 'a) prog \<Rightarrow> ('s, 'a) prog" where
  "set_back_valid_ranges getter setter gates body =
     (\<lambda>s. case read_each getter gates s of
        Inl e \<Rightarrow> (s, Inl e)
      | Inr valid_ranges \<Rightarrow>
          try_finally body (restore_each setter (zip gates valid_ranges)) s)"

text \<open>The state reached by running the setters one after the other, in list order.\<close>

definition set_in_order :: "('g \<Rightarrow> 'v \<Rightarrow> ('s, unit) prog) \<Rightarrow> ('g \<times> 'v) list \<Rightarrow> 's \<Rightarrow> 's" where
  "set_in_order setter gvs s = foldl (\<lambda>s' (g, v). fst (setter g v s')) s gvs"

text \<open>
  The contract of a gate attribute with its getter and setter: a set that completes stores
  the value in that gate and leaves the attribute of every other gate as it was.
\<close>

definition stores :: "('g \<Rightarrow> 's \<Rightarrow> error + 'v) \<Rightarrow> ('g \<Rightarrow> 'v \<Rightarrow> ('s, unit) prog) \<Rightarrow> bool" where
  "stores getter setter \<longleftrightarrow>
     (\<forall>g v s s'. setter g v s = (s', Inr ()) \<longrightarrow>
        getter g s' = Inr v \<and> (\<forall>g'. g' \<noteq> g \<longrightarrow> getter g' s' = getter g' s))"

text \<open>
  The restoration fails at position \<open>i\<close>: the setters before it complete, the one at \<open>i\<close>
  raises \<open>e\<close> and leaves the state \<open>s2\<close>.
\<close>

definition restore_fails_at ::
  "('g \<Rightarrow> 'v \<Rightarrow> ('s, unit) prog) \<Rightarrow> ('g \<times> 'v) list \<Rightarrow> 's \<Rightarrow> nat \<Rightarrow> 's \<Rightarrow> error \<Rightarrow> bool" where
  "restore_fails_at setter gvs s i s2 e \<longleftrightarrow>
     i < length gvs \<and>
     (case restore_each setter (take i gvs) s of
        (s1, Inr _) \<Rightarrow> setter (fst (gvs ! i)) (snd (gvs ! i)) s1 = (s2, Inl e)
      | (s1, Inl _) \<Rightarrow> False)"

section \<open>The tuner, the device and the measurement stage\<close>

text \<open>
  Python containers as the source uses them. A \<^verbatim>\<open>dict\<close> that is iterated is an association
  list with distinct keys; \<^verbatim>\<open>d[k]\<close> raises \<^verbatim>\<open>KeyError\<close> on a missing key. Assigning to an
  item of a tuple raises \<^verbatim>\<open>TypeError\<close>, whatever the index and the value.
\<close>

definition dict_getitem :: "('k \<times> 'v) list \<Rightarrow> 'k \<Rightarrow> error + 'v" where
  "dict_getitem d k = (case map_of d k of None \<Rightarrow> Inl KeyError | Some v \<Rightarrow> Inr v)"

definition dict_setitem :: "('k \<times> 'v) list \<Rightarrow> 'k \<Rightarrow> 'v \<Rightarrow> ('k \<times> 'v) list" where
  "dict_setitem d k v =
     (if k \<in> fst ` set d then map (\<lambda>(k', v'). if k' = k then (k', v) else (k', v')) d
      else d @ [(k, v)])"

definition dict_fromkeys :: "'k list \<Rightarrow> 'v \<Rightarrow> ('k \<times> 'v) list" where
  "dict_fromkeys ks v = map (\<lambda>k. (k, v)) (remdups ks)"

text \<open>
  A Python number is an \<^verbatim>\<open>int\<close> or a \<^verbatim>\<open>float\<close>; true division \<^verbatim>\<open>/\<close> gives a
  \<^verbatim>\<open>float\<close> whatever its operands, also when the quotient is whole.
\<close>

datatype pynum = PyInt int | PyFloat real

definition tuple_setitem :: "'a \<times> 'a \<Rightarrow> nat \<Rightarrow> 'a \<Rightarrow> error + 'a \<times> 'a" where
  "tuple_setitem t i v = Inl TypeError"

subsection \<open>State\<close>

datatype setting =
    SettingStr string
  | SettingInt int
  | SettingNone
  | SettingNormConsts "(string \<times> real \<times> real) list"

type_synonym gate_id = nat

type_synonym gate_status = "(string \<times> real) list"

record tuning_entry =
  entry_name :: string
  entry_success :: bool
  entry_termination_reasons :: "string list"
  entry_features :: "(string \<times> real) list"
  entry_device_gates_status :: gate_status
  entry_comment :: "string option"

type_synonym tuningresult = "tuning_entry list"

text \<open>
  The state the tuner works on: the hardware \<open>hw\<close>, of a type the collaborators choose; the
  normalization constants the device stores; and the tuner's own attributes. Method
  \<^verbatim>\<open>getting_signal\<close> reads \<^verbatim>\<open>self.normalization_constants\<close>; an instance may or may
  not have that attribute, and reading an absent one raises \<^verbatim>\<open>AttributeError\<close>.
\<close>

record 'h world =
  hw :: 'h
  device_normalization_constants :: "(string \<times> real \<times> real) list"
  data_settings :: "string \<rightharpoonup> setting"
  classifiers :: "string list"
  tuningresults :: "(string \<times> tuningresult list) list"
  tuner_normalization_constants :: "(string \<times> real \<times> real) list option"

text \<open>
  The tuner as \<^verbatim>\<open>Tuner.__init__\<close> leaves it, with the device it is used on. The
  constructor stores the classifiers, an empty \<^verbatim>\<open>tuningresults\<close> and the parameters
  \<^verbatim>\<open>data_settings\<close>, \<^verbatim>\<open>fit_options\<close> and \<^verbatim>\<open>setpoint_settings\<close>; neither it nor any
  other line of the class gives the instance an attribute \<^verbatim>\<open>normalization_constants\<close>.
\<close>

definition Tuner_init ::
  "(string \<rightharpoonup> setting) \<Rightarrow> string list \<Rightarrow> 'h \<Rightarrow> (string \<times> real \<times> real) list \<Rightarrow> 'h world" where
  "Tuner_init settings classifier_names h constants =
     \<lparr>hw = h,
      device_normalization_constants = constants,
      data_settings = settings,
      classifiers = classifier_names,
      tuningresults = [],
      tuner_normalization_constants = None\<rparr>"

subsection \<open>Collaborators\<close>

text \<open>
  What the device, its gates, the measurement stage and numpy do is outside the sources at
  hand; each operation the tuner calls is a field of the record \<open>driver\<close>. A read of the
  hardware returns a value or raises; a command changes the hardware and may raise.
  The stage is built from the settings of the tuner and the gate to sweep; the arguments
  that are the same at every call (classifier, fit options, readout methods, measurement
  options) are part of \<open>run_stage\<close>.
\<close>

datatype 'h readout = Parameter "'h \<Rightarrow> error + real" | NotParameter

record stage_config =
  cfg_data_settings :: "string \<rightharpoonup> setting"
  cfg_gates_to_sweep :: "gate_id list"
  cfg_update_settings :: bool

record 'h driver =
  device_name :: string
  device_gates :: "gate_id list"
  gate_name :: "gate_id \<Rightarrow> string"
  layout_id :: "gate_id \<Rightarrow> int"
  safety_range :: "gate_id \<Rightarrow> real \<times> real"
  dc_voltage_get :: "gate_id \<Rightarrow> 'h \<Rightarrow> error + real"
  dc_voltage_set :: "gate_id \<Rightarrow> real \<Rightarrow> ('h, unit) prog"
  current_valid_range_get :: "gate_id \<Rightarrow> 'h \<Rightarrow> error + real \<times> real"
  current_valid_range_set :: "gate_id \<Rightarrow> real \<times> real \<Rightarrow> ('h, unit) prog"
  all_gates_to_lowest :: "('h, unit) prog"
  all_gates_to_highest :: "('h, unit) prog"
  readout_methods :: "(string \<times> 'h readout) list"
  measurement_parameters :: "(string \<times> ('h \<Rightarrow> error + real)) list"
  get_gate_status :: "'h \<Rightarrow> error + gate_status"
  run_stage :: "stage_config \<Rightarrow> ('h, bool \<times> string list \<times> (string \<times> real) list) prog"
  linspace :: "real \<Rightarrow> real \<Rightarrow> pynum \<Rightarrow> error + real list"

definition on_hw :: "('h, 'a) prog \<Rightarrow> ('h world, 'a) prog" where
  "on_hw m = (\<lambda>w. case m (hw w) of (h', r) \<Rightarrow> (w\<lparr>hw := h'\<rparr>, r))"

definition read_hw :: "('h \<Rightarrow> error + 'a) \<Rightarrow> ('h world, 'a) prog" where
  "read_hw f = (\<lambda>w. (w, f (hw w)))"

definition pure :: "error + 'a \<Rightarrow> ('s, 'a) prog" where
  "pure r = (\<lambda>s. (s, r))"

subsection \<open>Settings overlay\<close>

text \<open>
  \<^verbatim>\<open>
  def update_data_settings(self, new_settings):
      self._data_settings.update(new_settings)

  @contextmanager
  def device_specific_settings(self, device):
      original_data_settings = copy.deepcopy(self.data_settings())
      self.data_settings(
          {'normalization_constants': device.normalization_constants()})
      try:
          yield
      finally:
          self.data_settings(original_data_settings)
  \<close>
  Setting the parameter \<^verbatim>\<open>data_settings\<close> calls \<^verbatim>\<open>update_data_settings\<close>, its
  \<^verbatim>\<open>set_cmd\<close>; \<^verbatim>\<open>dict.update\<close> is \<open>++\<close> on maps.
\<close>

definition update_data_settings :: "(string \<rightharpoonup> setting) \<Rightarrow> ('h world, unit) prog" where
  "update_data_settings new_settings =
     (\<lambda>w. (w\<lparr>data_settings := data_settings w ++ new_settings\<rparr>, Inr ()))"

definition device_specific_settings :: "('h world, 'a) prog \<Rightarrow> ('h world, 'a) prog" where
  "device_specific_settings body =
     (\<lambda>w. let original_data_settings = data_settings w
          in and_then
               (update_data_settings
                  [''normalization_constants'' \<mapsto>
                     SettingNormConsts (device_normalization_constants w)])
               (\<lambda>_. try_finally body (update_data_settings original_data_settings)) w)"

subsection \<open>Normalization constants\<close>

text \<open>
  \<^verbatim>\<open>
  available_readout_methods = device.readout_methods()
  normalization_constants = dict.fromkeys(
      available_readout_methods.keys(), (0.0, 1.0))
  with set_back_voltages(device.gates):
      device.all_gates_to_lowest()
      for read_meth in available_readout_methods.keys():
          val = device.measurement_parameters[read_meth].get()
          normalization_constants[read_meth][0] = val
      device.all_gates_to_highest()
      for read_meth in available_readout_methods.keys():
          val = device.measurement_parameters[read_meth].get()
          normalization_constants[read_meth][1] = val
  device.normalization_constants(normalization_constants)
  \<close>
  The values of \<^verbatim>\<open>normalization_constants\<close> are the tuple \<^verbatim>\<open>(0.0, 1.0)\<close>.
\<close>

definition measurement_get :: "'h driver \<Rightarrow> string \<Rightarrow> ('h world, real) prog" where
  "measurement_get D read_meth =
     and_then (pure (dict_getitem (measurement_parameters D) read_meth)) read_hw"

fun record_readings ::
  "'h driver \<Rightarrow> nat \<Rightarrow> string list \<Rightarrow> (string \<times> real \<times> real) list \<Rightarrow>
   ('h world, (string \<times> real \<times> real) list) prog" where
  "record_readings D i [] normalization_constants = ret normalization_constants"
| "record_readings D i (read_meth # rest) normalization_constants =
     and_then (measurement_get D read_meth) (\<lambda>val.
     and_then (pure (dict_getitem normalization_constants read_meth)) (\<lambda>t.
     and_then (pure (tuple_setitem t i val)) (\<lambda>t'.
       record_readings D i rest (dict_setitem normalization_constants read_meth t'))))"

definition update_normalization_constants :: "'h driver \<Rightarrow> ('h world, unit) prog" where
  "update_normalization_constants D =
     (let available_readout_methods = readout_methods D;
          keys = map fst available_readout_methods;
          normalization_constants = dict_fromkeys keys (0, 1)
      in and_then
           (set_back_voltages
              (\<lambda>g w. dc_voltage_get D g (hw w)) (\<lambda>g v. on_hw (dc_voltage_set D g v))
              (device_gates D)
              (and_then (on_hw (all_gates_to_lowest D)) (\<lambda>_.
               and_then (record_readings D 0 keys normalization_constants) (\<lambda>lowest.
               and_then (on_hw (all_gates_to_highest D)) (\<lambda>_.
                 record_readings D 1 keys lowest)))))
           (\<lambda>normalization_constants' w.
              (w\<lparr>device_normalization_constants := normalization_constants'\<rparr>, Inr ())))"

subsection \<open>Signal presence\<close>

text \<open>
  \<^verbatim>\<open>
  have_signal = False
  norm_consts = self.normalization_constants()
  if readout_method_to_check is None:
      readout_method_to_check = device.readout_methods().keys()
  for read_type in readout_method_to_check:
      read_param = device.readout_methods()[read_type]
      if isinstance(read_param, qc.Parameter):
          csts = norm_consts[read_type]
          signal = (read_param.get() - csts[0]) / (csts[1] - csts[0])
          if signal > thresholds_normalized[read_type]:
              have_signal = True
          else:
              logger.info(...)
  return have_signal
  \<close>
  Dividing a Python float by zero raises \<^verbatim>\<open>ZeroDivisionError\<close>.
\<close>

definition normalized :: "real \<Rightarrow> real \<times> real \<Rightarrow> error + real" where
  "normalized raw csts =
     (if snd csts - fst csts = 0 then Inl ZeroDivisionError
      else Inr ((raw - fst csts) / (snd csts - fst csts)))"

fun check_signal ::
  "'h driver \<Rightarrow> (string \<times> real \<times> real) list \<Rightarrow> (string \<times> real) list \<Rightarrow> string list \<Rightarrow>
   bool \<Rightarrow> 'h \<Rightarrow> error + bool" where
  "check_signal D norm_consts thresholds_normalized [] have_signal h = Inr have_signal"
| "check_signal D norm_consts thresholds_normalized (read_type # rest) have_signal h =
     (case dict_getitem (readout_methods D) read_type of
        Inl e \<Rightarrow> Inl e
      | Inr NotParameter \<Rightarrow> check_signal D norm_consts thresholds_normalized rest have_signal h
      | Inr (Parameter read_param) \<Rightarrow>
          (case dict_getitem norm_consts read_type of
             Inl e \<Rightarrow> Inl e
           | Inr csts \<Rightarrow>
               (case read_param h of
                  Inl e \<Rightarrow> Inl e
                | Inr raw \<Rightarrow>
                    (case normalized raw csts of
                       Inl e \<Rightarrow> Inl e
                     | Inr signal \<Rightarrow>
                         (case dict_getitem thresholds_normalized read_type of
                            Inl e \<Rightarrow> Inl e
                          | Inr threshold \<Rightarrow>
                              check_signal D norm_consts thresholds_normalized rest
                                (if threshold < signal then True else have_signal) h)))))"

definition channels_to_check :: "'h driver \<Rightarrow> string list option \<Rightarrow> string list" where
  "channels_to_check D readout_method_to_check =
     (case readout_method_to_check of
        None \<Rightarrow> map fst (readout_methods D)
      | Some chosen \<Rightarrow> chosen)"

definition getting_signal ::
  "'h driver \<Rightarrow> (string \<times> real) list \<Rightarrow> string list option \<Rightarrow> 'h world \<Rightarrow> error + bool" where
  "getting_signal D thresholds_normalized readout_method_to_check w =
     (case tuner_normalization_constants w of
        None \<Rightarrow> Inl AttributeError
      | Some norm_consts \<Rightarrow>
          check_signal D norm_consts thresholds_normalized
            (channels_to_check D readout_method_to_check) False (hw w))"

subsection \<open>Characterizing gates\<close>

text \<open>
  \<^verbatim>\<open>
  if 'pinchoff' not in self.classifiers.keys():
      raise KeyError('No pinchoff classifier found.')
  with set_back_valid_ranges(gates):
      if use_safety_ranges:
          for gate in gates:
              gate.current_valid_range(gate.safety_range())
      tuningresult = TuningResult(device.name)
      with self.device_specific_settings(device):
          for gate in gates:
              ...
              stage = GateCharacterization1D(data_settings=self.data_settings(), ...)
              success, termination_reasons, result = stage.run_stage()
              result['device_gates_status'] = device.get_gate_status()
              tuningresult.add_result(f"characterization_{gate.name}", success,
                                      termination_reasons, result, comment)
  if device.name not in self.tuningresults.keys():
      self.tuningresults[device.name] = []
  self.tuningresults[device.name].append(tuningresult)
  return tuningresult
  \<close>
\<close>

definition sweep ::
  "'h driver \<Rightarrow> gate_id list \<Rightarrow> bool \<Rightarrow> string \<Rightarrow> string option \<Rightarrow>
   ('h world, bool \<times> (string \<times> real) list \<times> tuning_entry) prog" where
  "sweep D gates_to_sweep update name comment =
     (\<lambda>w. and_then
        (on_hw (run_stage D
           \<lparr>cfg_data_settings = data_settings w, cfg_gates_to_sweep = gates_to_sweep,
            cfg_update_settings = update\<rparr>))
        (\<lambda>(success, termination_reasons, result).
           and_then (read_hw (get_gate_status D)) (\<lambda>status.
             ret (success, result,
                  \<lparr>entry_name = name, entry_success = success,
                   entry_termination_reasons = termination_reasons, entry_features = result,
                   entry_device_gates_status = status, entry_comment = comment\<rparr>))) w)"




subsection \<open>Initial ranges\<close>

text \<open>
  \<^verbatim>\<open>
  v_range = gate_to_set.safety_range()
  n_steps = abs(v_range[0] - v_range[1]) / voltage_step
  \<close>
\<close>

definition n_steps :: "real \<times> real \<Rightarrow> real \<Rightarrow> error + pynum" where
  "n_steps v_range voltage_step =
     (if voltage_step = 0 then Inl ZeroDivisionError
      else Inr (PyFloat (\<bar>fst v_range - snd v_range\<bar> / voltage_step)))"

text \<open>
  The forward scan.
  \<^verbatim>\<open>
  layout_ids = [g.layout_id() for g in gates_to_sweep]
  skip_gates = dict.fromkeys(layout_ids, False)
  ...
  for voltage in v_steps:
      gate_to_set.dc_voltage(voltage)
      for gid, gate in enumerate(gates_to_sweep):
          if not skip_gates[gid]:
              ...
              success, termination_reasons, result = stage.run_stage()
              result['device_gates_status'] = device.get_gate_status()
              tuningresult.add_result(f"characterization_{gate.name}", success,
                                      termination_reasons, result)
              if success:
                  skip_gates[gid] = True
                  last_gate = gid
      if all(skip_gates.values()):
          break
  \<close>
  The keys of \<^verbatim>\<open>skip_gates\<close> are layout ids; it is read and written at the position
  \<^verbatim>\<open>gid\<close> of the gate in \<^verbatim>\<open>gates_to_sweep\<close>.
\<close>

fun sweep_dependent ::
  "'h driver \<Rightarrow> (nat \<times> gate_id) list \<Rightarrow> (int \<times> bool) list \<Rightarrow> nat option \<Rightarrow> tuningresult \<Rightarrow>
   ('h world, (int \<times> bool) list \<times> nat option \<times> tuningresult) prog" where
  "sweep_dependent D [] skip_gates last_gate tuningresult =
     ret (skip_gates, last_gate, tuningresult)"
| "sweep_dependent D ((gid, gate) # rest) skip_gates last_gate tuningresult =
     and_then (pure (dict_getitem skip_gates (int gid))) (\<lambda>skip.
       if \<not> skip then
         and_then (sweep D [gate] False (''characterization_'' @ gate_name D gate) None)
           (\<lambda>(success, result, entry).
              if success
              then sweep_dependent D rest (dict_setitem skip_gates (int gid) True) (Some gid)
                     (tuningresult @ [entry])
              else sweep_dependent D rest skip_gates last_gate (tuningresult @ [entry]))
       else sweep_dependent D rest skip_gates last_gate tuningresult)"

fun forward_scan ::
  "'h driver \<Rightarrow> gate_id \<Rightarrow> gate_id list \<Rightarrow> real list \<Rightarrow> (int \<times> bool) list \<Rightarrow> nat option \<Rightarrow>
   tuningresult \<Rightarrow> ('h world, (int \<times> bool) list \<times> nat option \<times> tuningresult) prog" where
  "forward_scan D gate_to_set gates_to_sweep [] skip_gates last_gate tuningresult =
     ret (skip_gates, last_gate, tuningresult)"
| "forward_scan D gate_to_set gates_to_sweep (voltage # v_steps) skip_gates last_gate tuningresult =
     and_then (on_hw (dc_voltage_set D gate_to_set voltage)) (\<lambda>_.
     and_then (sweep_dependent D (enumerate 0 gates_to_sweep) skip_gates last_gate tuningresult)
       (\<lambda>(skip_gates', last_gate', tuningresult').
          if list_all snd skip_gates' then ret (skip_gates', last_gate', tuningresult')
          else forward_scan D gate_to_set gates_to_sweep v_steps skip_gates' last_gate'
                 tuningresult'))"

text \<open>
  The whole method.
  \<^verbatim>\<open>
  init_range_gate_to_set = (None, None)
  last_gate = None
  with self.device_specific_settings(device):
      v_steps = np.linspace(np.max(v_range), np.min(v_range), n_steps)
      for voltage in v_steps:
          ...
  init_range_gate_to_set[0] = gate_to_set.dc_voltage()
  gate_to_set.parent.all_gates_to_highest()
  v_range = last_gate.safety_range()
  ...
  \<close>
  After the forward scan, line 333 assigns to an item of the tuple \<^verbatim>\<open>(None, None)\<close>. The
  lines after it are the reverse probe, which starts from \<^verbatim>\<open>last_gate.safety_range()\<close>
  with \<^verbatim>\<open>last_gate\<close> holding the position \<^verbatim>\<open>gid\<close> (an \<^verbatim>\<open>int\<close>) or \<^verbatim>\<open>None\<close>:
  that call raises \<^verbatim>\<open>AttributeError\<close>, so nothing of the probe's loop can run.
\<close>

definition measure_initial_ranges ::
  "'h driver \<Rightarrow> gate_id \<Rightarrow> gate_id list \<Rightarrow> real \<Rightarrow>
   ('h world, (real option \<times> real option) \<times> tuningresult) prog" where
  "measure_initial_ranges D gate_to_set gates_to_sweep voltage_step =
     (\<lambda>w. if ''pinchoff'' \<notin> set (classifiers w) then raise KeyError w
          else and_then (on_hw (all_gates_to_highest D)) (\<lambda>_.
            let tuningresult = [];
                layout_ids = map (layout_id D) gates_to_sweep;
                skip_gates = dict_fromkeys layout_ids False;
                v_range = safety_range D gate_to_set
            in and_then (pure (n_steps v_range voltage_step)) (\<lambda>n.
               let init_range_gate_to_set = (None, None);
                   last_gate = None
               in and_then
                    (device_specific_settings
                       (and_then
                          (pure (linspace D (max (fst v_range) (snd v_range))
                                   (min (fst v_range) (snd v_range)) n))
                          (\<lambda>v_steps. forward_scan D gate_to_set gates_to_sweep v_steps
                                       skip_gates last_gate tuningresult)))
                    (\<lambda>(skip_gates', last_gate', tuningresult').
                       and_then (read_hw (dc_voltage_get D gate_to_set)) (\<lambda>lower.
                       and_then (pure (tuple_setitem init_range_gate_to_set 0 (Some lower)))
                         (\<lambda>init_range'.
                            and_then (on_hw (all_gates_to_highest D)) (\<lambda>_.
                              raise AttributeError)))))) w)"

subsection \<open>The forward scan in the words of the specification\<close>

text \<open>
  One flag per dependent gate, in the order of the gates: \<open>positions\<close> is the dict
  \<^verbatim>\<open>skip_gates\<close> whose keys are the positions. At a step the flag of a gate is raised
  when the gate responds at the voltage of the step. \<open>stop_index\<close> is the index of the step
  at which the scan ends: the first one after which every flag is raised, or the last one.
\<close>

definition positions :: "bool list \<Rightarrow> (int \<times> bool) list" where
  "positions bs = zip (map int [0..<length bs]) bs"

definition respond_step ::
  "(real \<Rightarrow> gate_id \<Rightarrow> bool) \<Rightarrow> real \<Rightarrow> gate_id list \<Rightarrow> bool list \<Rightarrow> bool list" where
  "respond_step verdict v gates bs = map2 (\<lambda>b g. b \<or> verdict v g) bs gates"

fun stop_index ::
  "(real \<Rightarrow> gate_id \<Rightarrow> bool) \<Rightarrow> gate_id list \<Rightarrow> real list \<Rightarrow> bool list \<Rightarrow> nat option" where
  "stop_index verdict gates [] bs = None"
| "stop_index verdict gates (v # vs) bs =
     (let bs' = respond_step verdict v gates bs
      in if list_all id bs' then Some 0
         else (case stop_index verdict gates vs bs' of None \<Rightarrow> Some 0 | Some j \<Rightarrow> Some (Suc j)))"

section \<open>A simulated device\<close>

text \<open>
  A device whose gates are plain storage cells, addressed by number, for running the
  definitions on concrete inputs.
\<close>

record gate =
  dc_voltage :: real
  current_valid_range :: "real \<times> real"

type_synonym sim_hw = "gate_id \<Rightarrow> gate"

definition sim_dc_get :: "gate_id \<Rightarrow> sim_hw \<Rightarrow> error + real" where
  "sim_dc_get g h = Inr (dc_voltage (h g))"

definition sim_dc_set :: "gate_id \<Rightarrow> real \<Rightarrow> (sim_hw, unit) prog" where
  "sim_dc_set g v = (\<lambda>h. (h(g := (h g)\<lparr>dc_voltage := v\<rparr>), Inr ()))"

definition sim_range_get :: "gate_id \<Rightarrow> sim_hw \<Rightarrow> error + real \<times> real" where
  "sim_range_get g h = Inr (current_valid_range (h g))"

definition sim_range_set :: "gate_id \<Rightarrow> real \<times> real \<Rightarrow> (sim_hw, unit) prog" where
  "sim_range_set g r = (\<lambda>h. (h(g := (h g)\<lparr>current_valid_range := r\<rparr>), Inr ()))"

text \<open>A gate whose driver refuses every set, as on a lost connection.\<close>

definition stuck_dc_set :: "gate_id \<Rightarrow> gate_id \<Rightarrow> real \<Rightarrow> (sim_hw, unit) prog" where
  "stuck_dc_set bad g v =
     (if g = bad then raise (CollaboratorFailure ''set refused'') else sim_dc_set g v)"

definition stuck_range_set :: "gate_id \<Rightarrow> gate_id \<Rightarrow> real \<times> real \<Rightarrow> (sim_hw, unit) prog" where
  "stuck_range_set bad g r =
     (if g = bad then raise (CollaboratorFailure ''set refused'') else sim_range_set g r)"

definition sim_hw0 :: sim_hw where
  "sim_hw0 = (\<lambda>_. \<lparr>dc_voltage = 0, current_valid_range = (-1, 0)\<rparr>)"

text \<open>A block that moves two gates and then raises.\<close>

definition sim_block_raises :: "(sim_hw, unit) prog" where
  "sim_block_raises =
     and_then (sim_dc_set 0 (-2)) (\<lambda>_.
     and_then (sim_range_set 0 (-3, 3)) (\<lambda>_.
     and_then (sim_dc_set 1 (-1)) (\<lambda>_.
     and_then (sim_range_set 1 (-2, 2)) (\<lambda>_.
       raise (CollaboratorFailure ''sweep failed'')))))"

text \<open>
  \<^verbatim>\<open>numpy.linspace\<close> in two generations. Before numpy 1.18 a count that is a float had
  its fraction dropped (\<open>sim_linspace\<close>). Since 1.18 the count is taken through
  \<^verbatim>\<open>operator.index\<close>, which raises \<^verbatim>\<open>TypeError\<close> for every float, whole or not
  (\<open>np_linspace\<close>); module \<^verbatim>\<open>nanotune/data/dataset.py\<close> imports \<^verbatim>\<open>numpy.typing\<close>, which
  numpy has since 1.20.
\<close>

definition linspace_samples :: "real \<Rightarrow> real \<Rightarrow> nat \<Rightarrow> real list" where
  "linspace_samples start stop n =
     map (\<lambda>i. start + of_nat i * (stop - start) / of_nat (n - 1)) [0..<n]"

definition sim_linspace :: "real \<Rightarrow> real \<Rightarrow> pynum \<Rightarrow> error + real list" where
  "sim_linspace start stop num =
     (case num of
        PyFloat x \<Rightarrow> Inr (linspace_samples start stop (nat \<lfloor>x\<rfloor>))
      | PyInt n \<Rightarrow> Inr (linspace_samples start stop (nat n)))"

definition np_linspace :: "real \<Rightarrow> real \<Rightarrow> pynum \<Rightarrow> error + real list" where
  "np_linspace start stop num =
     (case num of
        PyFloat x \<Rightarrow> Inl TypeError
      | PyInt n \<Rightarrow>
          if n < 0 then Inl (CollaboratorFailure ''ValueError'')
          else Inr (linspace_samples start stop (nat n)))"

text \<open>
  A device of two gates, the top barrier \<open>0\<close> and the plunger \<open>1\<close>, with two readout channels.
  The stage reports success according to \<open>responds\<close>, and \<open>linspace\<close> is the one that drops
  the fraction of the count. \<open>sim_numpy_driver\<close> is the same device with the \<open>linspace\<close> of
  today.
\<close>

definition sim_driver :: "(sim_hw \<Rightarrow> bool) \<Rightarrow> sim_hw driver" where
  "sim_driver responds =
     \<lparr>device_name = ''chip'',
      device_gates = [0, 1],
      gate_name = (\<lambda>g. if g = 0 then ''top_barrier'' else ''plunger''),
      layout_id = (\<lambda>g. if g = 0 then 1 else 0),
      safety_range = (\<lambda>_. (-2, 0)),
      dc_voltage_get = sim_dc_get,
      dc_voltage_set = sim_dc_set,
      current_valid_range_get = sim_range_get,
      current_valid_range_set = sim_range_set,
      all_gates_to_lowest = and_then (sim_dc_set 0 (-2)) (\<lambda>_. sim_dc_set 1 (-2)),
      all_gates_to_highest = and_then (sim_dc_set 0 0) (\<lambda>_. sim_dc_set 1 0),
      readout_methods =
        [(''dc_current'', Parameter (\<lambda>h. Inr (3 + dc_voltage (h 0)))),
         (''dc_sensor'', Parameter (\<lambda>h. Inr 1))],
      measurement_parameters =
        [(''dc_current'', (\<lambda>h. Inr (3 + dc_voltage (h 0)))),
         (''dc_sensor'', (\<lambda>h. Inr 1))],
      get_gate_status =
        (\<lambda>h. Inr [(''top_barrier'', dc_voltage (h 0)), (''plunger'', dc_voltage (h 1))]),
      run_stage = (\<lambda>cfg h. (h, Inr (responds h, [], [(''low_voltage'', - 1 / 2)]))),
      linspace = sim_linspace\<rparr>"

definition sim_numpy_driver :: "(sim_hw \<Rightarrow> bool) \<Rightarrow> sim_hw driver" where
  "sim_numpy_driver responds = (sim_driver responds)\<lparr>linspace := np_linspace\<rparr>"

definition sim_world0 :: "sim_hw world" where
  "sim_world0 =
     Tuner_init [''db_name'' \<mapsto> SettingStr ''tuning.db''] [''pinchoff''] sim_hw0
       [(''dc_current'', (1, 3)), (''dc_sensor'', (0, 2))]"

text \<open>The pinch-off shows once the top barrier is at -1 or below; or never; or always.\<close>

definition sim_below_minus_one :: "sim_hw \<Rightarrow> bool" where
  "sim_below_minus_one h \<longleftrightarrow> dc_voltage (h 0) \<le> -1"

definition sim_never :: "sim_hw \<Rightarrow> bool" where
  "sim_never h \<longleftrightarrow> False"

definition sim_always :: "sim_hw \<Rightarrow> bool" where
  "sim_always h \<longleftrightarrow> True"

text \<open>
  The same device with a top barrier whose safety range is \<open>(-4, 0)\<close> and a stage that
  succeeds at once and reports a low-voltage feature of \<open>-5\<close>.
\<close>

definition sim_feature_driver :: "sim_hw driver" where
  "sim_feature_driver =
     (sim_driver sim_always)
       \<lparr>safety_range := (\<lambda>_. (-4, 0)),
        run_stage := (\<lambda>cfg h. (h, Inr (True, [], [(''low_voltage'', -5)])))\<rparr>"

definition sim_thresholds :: "(string \<times> real) list" where
  "sim_thresholds = [(''dc_current'', 1 / 2), (''dc_sensor'', 1 / 4)]"

section \<open>Frames and outcomes of statements\<close>

text \<open>
  \<open>keeps f m\<close>: the statement \<open>m\<close> leaves the observation \<open>f\<close> of the state as it was, on every
  exit. \<open>always_raises m\<close>: \<open>m\<close> never completes.
\<close>

definition keeps :: "('s \<Rightarrow> 'b) \<Rightarrow> ('s, 'a) prog \<Rightarrow> bool" where
  "keeps f m \<longleftrightarrow> (\<forall>s. f (fst (m s)) = f s)"

definition always_raises :: "('s, 'a) prog \<Rightarrow> bool" where
  "always_raises m \<longleftrightarrow> (\<forall>s. isl (snd (m s)))"

section \<open>Rollback: helper facts\<close>

lemma read_each_values:
  "read_each getter gs s = Inr vs \<Longrightarrow> map (\<lambda>g. getter g s) gs = map Inr vs"
  by (induction gs arbitrary: vs) (auto split: sum.splits)

lemma restore_each_in_order:
  "restore_each setter gvs s = (s', Inr ()) \<Longrightarrow> s' = set_in_order setter gvs s"
  unfolding set_in_order_def
proof (induction gvs arbitrary: s)
  case Nil
  then show ?case by simp
next
  case (Cons p gvs)
  obtain g v where p: "p = (g, v)" by (cases p)
  from Cons.prems obtain s1 where s1: "setter g v s = (s1, Inr ())"
    and rest: "restore_each setter gvs s1 = (s', Inr ())"
    by (auto simp: p split: prod.splits sum.splits)
  show ?case using Cons.IH [OF rest] by (simp add: p s1)
qed

lemma restore_each_frame:
  assumes "stores getter setter"
      and "restore_each setter gvs s = (s', Inr ())"
      and "x \<notin> fst ` set gvs"
  shows "getter x s' = getter x s"
  using assms(2,3)
proof (induction gvs arbitrary: s)
  case Nil
  then show ?case by simp
next
  case (Cons p gvs)
  obtain g v where p: "p = (g, v)" by (cases p)
  from Cons.prems(1) obtain s1 where s1: "setter g v s = (s1, Inr ())"
    and rest: "restore_each setter gvs s1 = (s', Inr ())"
    by (auto simp: p split: prod.splits sum.splits)
  from Cons.prems(2) have "x \<noteq> g" and "x \<notin> fst ` set gvs" by (auto simp: p)
  then have "getter x s' = getter x s1" and "getter x s1 = getter x s"
    using Cons.IH [OF rest] assms(1) s1 by (auto simp: stores_def)
  then show ?case by simp
qed

lemma restore_each_restored:
  assumes "stores getter setter"
      and "map (\<lambda>g. getter g s0) gs = map Inr vs"
      and "restore_each setter (zip gs vs) s = (s', Inr ())"
      and "g \<in> set gs"
  shows "getter g s' = getter g s0"
  using assms(2-4)
proof (induction gs arbitrary: vs s)
  case Nil
  then show ?case by simp
next
  case (Cons x xs)
  from Cons.prems(1) obtain w ws where vs: "vs = w # ws"
    and x: "getter x s0 = Inr w" and xs: "map (\<lambda>g. getter g s0) xs = map Inr ws"
    by (cases vs) auto
  from Cons.prems(2) obtain s1 where s1: "setter x w s = (s1, Inr ())"
    and rest: "restore_each setter (zip xs ws) s1 = (s', Inr ())"
    by (auto simp: vs split: prod.splits sum.splits)
  show ?case
  proof (cases "g \<in> set xs")
    case True
    then show ?thesis using Cons.IH [OF xs rest] by simp
  next
    case False
    then have gx: "g = x" using Cons.prems(3) by simp
    have "x \<notin> fst ` set (zip xs ws)"
      using False gx by (auto dest: set_zip_leftD)
    then have "getter x s' = getter x s1"
      using restore_each_frame [OF assms(1) rest] by simp
    moreover have "getter x s1 = Inr w"
      using assms(1) s1 by (auto simp: stores_def)
    ultimately show ?thesis using x gx by simp
  qed
qed

lemma restore_each_stops:
  assumes "restore_each setter pre s = (s1, Inr ())"
      and "setter g v s1 = (s2, Inl e)"
  shows "restore_each setter (pre @ (g, v) # post) s = (s2, Inl e)"
  using assms
proof (induction pre arbitrary: s)
  case Nil
  then show ?case by simp
next
  case (Cons p pre)
  obtain g' v' where p: "p = (g', v')" by (cases p)
  from Cons.prems(1) obtain s' where s': "setter g' v' s = (s', Inr ())"
    and rest: "restore_each setter pre s' = (s1, Inr ())"
    by (auto simp: p split: prod.splits sum.splits)
  show ?case using Cons.IH [OF rest Cons.prems(2)] by (simp add: p s')
qed

lemma restore_fails_at_result:
  assumes "restore_fails_at setter gvs s i s2 e"
  shows "restore_each setter gvs s = (s2, Inl e)"
proof -
  from assms have i: "i < length gvs" by (simp add: restore_fails_at_def)
  from assms obtain s1 where pre: "restore_each setter (take i gvs) s = (s1, Inr ())"
    and bad: "setter (fst (gvs ! i)) (snd (gvs ! i)) s1 = (s2, Inl e)"
    by (auto simp: restore_fails_at_def split: prod.splits sum.splits)
  have "gvs = take i gvs @ (fst (gvs ! i), snd (gvs ! i)) # drop (Suc i) gvs"
    using i by (simp add: id_take_nth_drop)
  then show ?thesis using restore_each_stops [OF pre bad] by metis
qed

lemma scope_restores:
  assumes "stores getter setter"
      and "read_each getter gates s = Inr vs"
      and "snd (restore_each setter (zip gates vs) (fst (body s))) = Inr ()"
  shows "(\<forall>g\<in>set gates.
            getter g (fst (try_finally body (restore_each setter (zip gates vs)) s)) = getter g s)
         \<and> snd (try_finally body (restore_each setter (zip gates vs)) s) = snd (body s)
         \<and> fst (try_finally body (restore_each setter (zip gates vs)) s)
             = set_in_order setter (zip gates vs) (fst (body s))"
proof -
  obtain s1 r where body: "body s = (s1, r)" by (cases "body s")
  obtain s' where rest: "restore_each setter (zip gates vs) s1 = (s', Inr ())"
    using assms(3) body by (cases "restore_each setter (zip gates vs) s1") auto
  have res: "try_finally body (restore_each setter (zip gates vs)) s = (s', r)"
    by (simp add: try_finally_def body rest)
  have "\<forall>g\<in>set gates. getter g s' = getter g s"
    using restore_each_restored [OF assms(1) read_each_values [OF assms(2)] rest] by blast
  moreover have "s' = set_in_order setter (zip gates vs) s1"
    using restore_each_in_order [OF rest] .
  ultimately show ?thesis by (simp add: res body)
qed

lemma scope_fails:
  assumes "restore_each setter gvs (fst (body s)) = (s2, Inl e)"
  shows "try_finally body (restore_each setter gvs) s = (s2, Inl e)"
  using assms by (cases "body s") (simp add: try_finally_def)

section \<open>Rollback: the claims\<close>

text \<open>
  C1. Whatever the block does, and whether it completes or raises: when the values of the
  gates were read at entry and their restoration raises nothing, every gate of the list has
  after the scope the dc voltage (for \<open>set_back_valid_ranges\<close>, the valid range) it had
  before it; the outcome of the block is the outcome of the scope; and the state after the
  scope is the state the block left with the setters applied in the order of the list.
\<close>

theorem rollback_restores_in_order:
  assumes "stores get_v set_v"
      and "read_each get_v gates s = Inr vs"
      and "snd (restore_each set_v (zip gates vs) (fst (body s))) = Inr ()"
      and "stores get_r set_r"
      and "read_each get_r gates' t = Inr rs"
      and "snd (restore_each set_r (zip gates' rs) (fst (body' t))) = Inr ()"
  shows "((\<forall>g\<in>set gates. get_v g (fst (set_back_voltages get_v set_v gates body s)) = get_v g s)
          \<and> snd (set_back_voltages get_v set_v gates body s) = snd (body s)
          \<and> fst (set_back_voltages get_v set_v gates body s)
              = set_in_order set_v (zip gates vs) (fst (body s)))
       \<and> ((\<forall>g\<in>set gates'.
              get_r g (fst (set_back_valid_ranges get_r set_r gates' body' t)) = get_r g t)
          \<and> snd (set_back_valid_ranges get_r set_r gates' body' t) = snd (body' t)
          \<and> fst (set_back_valid_ranges get_r set_r gates' body' t)
              = set_in_order set_r (zip gates' rs) (fst (body' t)))"
proof -
  have v: "set_back_voltages get_v set_v gates body s
             = try_finally body (restore_each set_v (zip gates vs)) s"
    by (simp add: set_back_voltages_def assms(2))
  have r: "set_back_valid_ranges get_r set_r gates' body' t
             = try_finally body' (restore_each set_r (zip gates' rs)) t"
    by (simp add: set_back_valid_ranges_def assms(5))
  show ?thesis
    unfolding v r
    by (rule conjI)
       (rule scope_restores [where body = body and s = s, OF assms(1-3)],
        rule scope_restores [where body = body' and s = t, OF assms(4-6)])
qed

lemma sim_dc_stores: "stores sim_dc_get sim_dc_set"
  by (auto simp: stores_def sim_dc_get_def sim_dc_set_def)

lemma sim_range_stores: "stores sim_range_get sim_range_set"
  by (auto simp: stores_def sim_range_get_def sim_range_set_def)

theorem rollback_restores_in_order_witness:
  "stores sim_dc_get sim_dc_set
   \<and> read_each sim_dc_get [0, 1] sim_hw0 = Inr [0, 0]
   \<and> snd (restore_each sim_dc_set (zip [0, 1] [0, 0]) (fst (sim_block_raises sim_hw0))) = Inr ()
   \<and> stores sim_range_get sim_range_set
   \<and> read_each sim_range_get [0, 1] sim_hw0 = Inr [(-1, 0), (-1, 0)]
   \<and> snd (restore_each sim_range_set (zip [0, 1] [(-1, 0), (-1, 0)])
            (fst (sim_block_raises sim_hw0))) = Inr ()
   \<and> sim_dc_get 0 (fst (sim_block_raises sim_hw0)) = Inr (-2)
   \<and> sim_dc_get 0 (fst (set_back_voltages sim_dc_get sim_dc_set [0, 1] sim_block_raises sim_hw0))
       = Inr 0
   \<and> snd (set_back_voltages sim_dc_get sim_dc_set [0, 1] sim_block_raises sim_hw0)
       = Inl (CollaboratorFailure ''sweep failed'')
   \<and> sim_range_get 1 (fst (sim_block_raises sim_hw0)) = Inr (-2, 2)
   \<and> sim_range_get 1
        (fst (set_back_valid_ranges sim_range_get sim_range_set [0, 1] sim_block_raises sim_hw0))
       = Inr (-1, 0)"
proof -
  have h1: "read_each sim_dc_get [0, 1] sim_hw0 = Inr [0, 0]"
    by (simp add: sim_dc_get_def sim_hw0_def)
  have h2: "snd (restore_each sim_dc_set (zip [0, 1] [0, 0]) (fst (sim_block_raises sim_hw0)))
              = Inr ()"
    by (simp add: sim_dc_set_def)
  have h3: "read_each sim_range_get [0, 1] sim_hw0 = Inr [(-1, 0), (-1, 0)]"
    by (simp add: sim_range_get_def sim_hw0_def)
  have h4: "snd (restore_each sim_range_set (zip [0, 1] [(-1, 0), (-1, 0)])
              (fst (sim_block_raises sim_hw0))) = Inr ()"
    by (simp add: sim_range_set_def)
  have blk: "sim_dc_get 0 (fst (sim_block_raises sim_hw0)) = Inr (-2)"
            "sim_range_get 1 (fst (sim_block_raises sim_hw0)) = Inr (-2, 2)"
            "snd (sim_block_raises sim_hw0) = Inl (CollaboratorFailure ''sweep failed'')"
    by (simp_all add: sim_block_raises_def and_then_def raise_def sim_dc_set_def
          sim_range_set_def sim_dc_get_def sim_range_get_def)
  have init: "sim_dc_get 0 sim_hw0 = Inr 0" "sim_range_get 1 sim_hw0 = Inr (-1, 0)"
    by (simp_all add: sim_dc_get_def sim_range_get_def sim_hw0_def)
  note R = rollback_restores_in_order
             [where body = sim_block_raises and s = sim_hw0
                and body' = sim_block_raises and t = sim_hw0,
              OF sim_dc_stores h1 h2 sim_range_stores h3 h4]
  from R have "\<forall>g\<in>set [0, 1].
      sim_dc_get g (fst (set_back_voltages sim_dc_get sim_dc_set [0, 1] sim_block_raises sim_hw0))
        = sim_dc_get g sim_hw0"
    by blast
  with init(1) have c1:
    "sim_dc_get 0 (fst (set_back_voltages sim_dc_get sim_dc_set [0, 1] sim_block_raises sim_hw0))
       = Inr 0"
    by simp
  from R have "snd (set_back_voltages sim_dc_get sim_dc_set [0, 1] sim_block_raises sim_hw0)
                 = snd (sim_block_raises sim_hw0)"
    by blast
  with blk(3) have c2:
    "snd (set_back_voltages sim_dc_get sim_dc_set [0, 1] sim_block_raises sim_hw0)
       = Inl (CollaboratorFailure ''sweep failed'')"
    by simp
  from R have "\<forall>g\<in>set [0, 1].
      sim_range_get g
        (fst (set_back_valid_ranges sim_range_get sim_range_set [0, 1] sim_block_raises sim_hw0))
        = sim_range_get g sim_hw0"
    by blast
  with init(2) have c3:
    "sim_range_get 1
       (fst (set_back_valid_ranges sim_range_get sim_range_set [0, 1] sim_block_raises sim_hw0))
       = Inr (-1, 0)"
    by simp
  show ?thesis
    using sim_dc_stores h1 h2 sim_range_stores h3 h4 blk(1) c1 c2 blk(2) c3 by blast
qed

text \<open>
  C9, as the source has it. When the setter of one gate raises during the restoration, the
  loop ends there: the gates before it are restored, no setter runs for the gates after it,
  and the scope ends in the state that setter left, raising its exception in place of the
  outcome of the block. Errors are not collected.
\<close>

theorem rollback_stops_at_first_failure:
  assumes "read_each get_v gates s = Inr vs"
      and "restore_fails_at set_v (zip gates vs) (fst (body s)) i s2 e"
      and "read_each get_r gates' t = Inr rs"
      and "restore_fails_at set_r (zip gates' rs) (fst (body' t)) j t2 e'"
  shows "set_back_voltages get_v set_v gates body s = (s2, Inl e)
       \<and> set_back_valid_ranges get_r set_r gates' body' t = (t2, Inl e')"
  using scope_fails [where body = body and s = s, OF restore_fails_at_result [OF assms(2)]]
        scope_fails [where body = body' and s = t, OF restore_fails_at_result [OF assms(4)]]
  by (simp add: set_back_voltages_def set_back_valid_ranges_def assms(1,3))

theorem rollback_stops_at_first_failure_witness:
  "read_each sim_dc_get [0, 1] sim_hw0 = Inr [0, 0]
   \<and> restore_fails_at (stuck_dc_set 0) (zip [0, 1] [0, 0]) (fst (sim_block_raises sim_hw0)) 0
        (fst (sim_block_raises sim_hw0)) (CollaboratorFailure ''set refused'')
   \<and> read_each sim_range_get [0, 1] sim_hw0 = Inr [(-1, 0), (-1, 0)]
   \<and> restore_fails_at (stuck_range_set 0) (zip [0, 1] [(-1, 0), (-1, 0)])
        (fst (sim_block_raises sim_hw0)) 0
        (fst (sim_block_raises sim_hw0)) (CollaboratorFailure ''set refused'')
   \<and> set_back_voltages sim_dc_get (stuck_dc_set 0) [0, 1] sim_block_raises sim_hw0
       = (fst (sim_block_raises sim_hw0), Inl (CollaboratorFailure ''set refused''))
   \<and> set_back_valid_ranges sim_range_get (stuck_range_set 0) [0, 1] sim_block_raises sim_hw0
       = (fst (sim_block_raises sim_hw0), Inl (CollaboratorFailure ''set refused''))
   \<and> restore_fails_at (stuck_dc_set 1) (zip [0, 1] [0, 0]) (fst (sim_block_raises sim_hw0)) 1
        (fst (sim_dc_set 0 0 (fst (sim_block_raises sim_hw0))))
        (CollaboratorFailure ''set refused'')
   \<and> set_back_voltages sim_dc_get (stuck_dc_set 1) [0, 1] sim_block_raises sim_hw0
       = (fst (sim_dc_set 0 0 (fst (sim_block_raises sim_hw0))),
          Inl (CollaboratorFailure ''set refused''))
   \<and> sim_dc_get 0 (fst (sim_dc_set 0 0 (fst (sim_block_raises sim_hw0)))) = Inr 0
   \<and> sim_dc_get 1 (fst (sim_dc_set 0 0 (fst (sim_block_raises sim_hw0)))) = Inr (-1)"
proof -
  have h1: "read_each sim_dc_get [0, 1] sim_hw0 = Inr [0, 0]"
    by (simp add: sim_dc_get_def sim_hw0_def)
  have h5: "restore_fails_at (stuck_dc_set 1) (zip [0, 1] [0, 0])
              (fst (sim_block_raises sim_hw0)) 1
              (fst (sim_dc_set 0 0 (fst (sim_block_raises sim_hw0))))
              (CollaboratorFailure ''set refused'')"
    by (simp add: restore_fails_at_def stuck_dc_set_def raise_def sim_dc_set_def)
  have left: "sim_dc_get 0 (fst (sim_dc_set 0 0 (fst (sim_block_raises sim_hw0)))) = Inr 0"
             "sim_dc_get 1 (fst (sim_dc_set 0 0 (fst (sim_block_raises sim_hw0)))) = Inr (-1)"
    by (simp_all add: sim_dc_get_def sim_dc_set_def sim_block_raises_def and_then_def raise_def
          sim_range_set_def)
  have h2: "restore_fails_at (stuck_dc_set 0) (zip [0, 1] [0, 0])
              (fst (sim_block_raises sim_hw0)) 0
              (fst (sim_block_raises sim_hw0)) (CollaboratorFailure ''set refused'')"
    by (simp add: restore_fails_at_def stuck_dc_set_def raise_def)
  have h3: "read_each sim_range_get [0, 1] sim_hw0 = Inr [(-1, 0), (-1, 0)]"
    by (simp add: sim_range_get_def sim_hw0_def)
  have h4: "restore_fails_at (stuck_range_set 0) (zip [0, 1] [(-1, 0), (-1, 0)])
              (fst (sim_block_raises sim_hw0)) 0
              (fst (sim_block_raises sim_hw0)) (CollaboratorFailure ''set refused'')"
    by (simp add: restore_fails_at_def stuck_range_set_def raise_def)
  note R = rollback_stops_at_first_failure
             [where body = sim_block_raises and s = sim_hw0
                and body' = sim_block_raises and t = sim_hw0, OF h1 h2 h3 h4]
  note R' = rollback_stops_at_first_failure
              [where body = sim_block_raises and s = sim_hw0
                 and body' = sim_block_raises and t = sim_hw0, OF h1 h5 h3 h4]
  show ?thesis using h1 h2 h3 h4 h5 left R R' by blast
qed

theorem rollback_skips_later_gates:
  "sim_dc_get 1 (fst (set_back_voltages sim_dc_get (stuck_dc_set 0) [0, 1]
                        sim_block_raises sim_hw0)) = Inr (-1)
   \<and> sim_dc_get 1 sim_hw0 = Inr 0
   \<and> snd (set_back_voltages sim_dc_get (stuck_dc_set 0) [0, 1] sim_block_raises sim_hw0)
       = Inl (CollaboratorFailure ''set refused'')"
  by (simp add: set_back_voltages_def try_finally_def sim_block_raises_def and_then_def
        raise_def stuck_dc_set_def sim_dc_set_def sim_range_set_def sim_dc_get_def sim_hw0_def)


section \<open>The settings overlay\<close>

lemma device_specific_settings_merges:
  "data_settings (fst (device_specific_settings body w))
     = data_settings
         (fst (body (w\<lparr>data_settings := data_settings w
                        ++ [''normalization_constants'' \<mapsto>
                              SettingNormConsts (device_normalization_constants w)]\<rparr>)))
       ++ data_settings w"
  by (simp add: device_specific_settings_def update_data_settings_def and_then_def
        try_finally_def Let_def split: prod.splits sum.splits)

lemma device_specific_settings_keeps_old_keys:
  "k \<in> dom (data_settings w) \<Longrightarrow>
     data_settings (fst (device_specific_settings body w)) k = data_settings w k"
  by (auto simp: device_specific_settings_merges map_add_def split: option.splits)

text \<open>
  C3, on the source. The scope restores with \<^verbatim>\<open>dict.update\<close>, which puts the old entries
  back and removes none: for settings without the key \<^verbatim>\<open>normalization_constants\<close> and
  a block that does nothing, the key is there after the scope, with the constants of the
  device.
\<close>

theorem device_specific_settings_leaks:
  "data_settings sim_world0 ''normalization_constants'' = None
   \<and> data_settings (fst (device_specific_settings (ret ()) sim_world0))
        ''normalization_constants''
       = Some (SettingNormConsts [(''dc_current'', (1, 3)), (''dc_sensor'', (0, 2))])
   \<and> snd (device_specific_settings (ret ()) sim_world0) = Inr ()"
  by (simp add: device_specific_settings_def update_data_settings_def and_then_def
        try_finally_def ret_def sim_world0_def Tuner_init_def)

section \<open>Frames: helper facts\<close>

lemma keeps_ret: "keeps f (ret x)"
  by (simp add: keeps_def ret_def)

lemma keeps_raise: "keeps f (raise e)"
  by (simp add: keeps_def raise_def)

lemma keeps_pure: "keeps f (pure r)"
  by (simp add: keeps_def pure_def)

lemma keeps_and_then:
  assumes "keeps f m" and "\<And>x. keeps f (k x)"
  shows "keeps f (and_then m k)"
  unfolding keeps_def
proof
  fix s
  obtain s' r where m: "m s = (s', r)" by (cases "m s")
  have "f s' = f s" using assms(1) m by (auto simp: keeps_def dest: spec [of _ s])
  then show "f (fst (and_then m k s)) = f s"
    using assms(2) by (cases r) (auto simp: and_then_def m keeps_def)
qed

lemma keeps_try_finally:
  assumes "keeps f body" and "keeps f handler"
  shows "keeps f (try_finally body handler)"
  unfolding keeps_def
proof
  fix s
  obtain s1 r where b: "body s = (s1, r)" by (cases "body s")
  obtain s2 r2 where h: "handler s1 = (s2, r2)" by (cases "handler s1")
  have "f s1 = f s" using assms(1) b by (auto simp: keeps_def dest: spec [of _ s])
  moreover have "f s2 = f s1" using assms(2) h by (auto simp: keeps_def dest: spec [of _ s1])
  ultimately show "f (fst (try_finally body handler s)) = f s"
    by (cases r2) (simp_all add: try_finally_def b h)
qed


lemma keeps_restore_each:
  assumes "\<And>g v. keeps f (setter g v)"
  shows "keeps f (restore_each setter gvs)"
  unfolding keeps_def
proof (induction gvs)
  case Nil
  show ?case by simp
next
  case (Cons p gvs)
  obtain g v where p: "p = (g, v)" by (cases p)
  show ?case
  proof
    fix s
    obtain s' r where st: "setter g v s = (s', r)" by (cases "setter g v s")
    have "f s' = f s" using assms [of g v] st by (auto simp: keeps_def dest: spec [of _ s])
    then show "f (fst (restore_each setter (p # gvs) s)) = f s"
      using Cons.IH by (cases r) (simp_all add: p st)
  qed
qed

lemma keeps_set_back_voltages:
  assumes "\<And>g v. keeps f (setter g v)" and "keeps f body"
  shows "keeps f (set_back_voltages getter setter gates body)"
  unfolding keeps_def
proof
  fix s
  show "f (fst (set_back_voltages getter setter gates body s)) = f s"
  proof (cases "read_each getter gates s")
    case (Inl e)
    then show ?thesis by (simp add: set_back_voltages_def)
  next
    case (Inr vs)
    have "keeps f (try_finally body (restore_each setter (zip gates vs)))"
      by (intro keeps_try_finally keeps_restore_each assms)
    then show ?thesis by (simp add: set_back_voltages_def Inr keeps_def)
  qed
qed



lemma keeps_on_hw_other:
  assumes "\<And>w h. f (w\<lparr>hw := h\<rparr>) = f w"
  shows "keeps f (on_hw m)"
  using assms by (simp add: keeps_def on_hw_def split: prod.splits)

lemma keeps_read_hw: "keeps f (read_hw g)"
  by (simp add: keeps_def read_hw_def)



lemma raises_pure: "always_raises (pure (Inl e))"
  by (simp add: always_raises_def pure_def)

lemma raises_raise: "always_raises (raise e)"
  by (simp add: always_raises_def raise_def)

lemma raises_and_then_left:
  assumes "always_raises m"
  shows "always_raises (and_then m k)"
  unfolding always_raises_def
proof
  fix s
  from assms have "isl (snd (m s))" by (simp add: always_raises_def)
  then show "isl (snd (and_then m k s))"
    by (cases "m s") (auto simp: and_then_def split: sum.splits)
qed

lemma raises_and_then_right:
  assumes "\<And>x. always_raises (k x)"
  shows "always_raises (and_then m k)"
  unfolding always_raises_def
proof
  fix s
  show "isl (snd (and_then m k s))"
    using assms by (cases "m s") (auto simp: and_then_def always_raises_def split: sum.splits)
qed

lemma raises_try_finally:
  assumes "always_raises body"
  shows "always_raises (try_finally body handler)"
  unfolding always_raises_def
proof
  fix s
  from assms have "isl (snd (body s))" by (simp add: always_raises_def)
  then show "isl (snd (try_finally body handler s))"
    by (cases "body s") (auto simp: try_finally_def split: prod.splits sum.splits)
qed

lemma raises_set_back_voltages:
  assumes "always_raises body"
  shows "always_raises (set_back_voltages getter setter gates body)"
  unfolding always_raises_def
proof
  fix s
  show "isl (snd (set_back_voltages getter setter gates body s))"
    using raises_try_finally [OF assms]
    by (cases "read_each getter gates s") (auto simp: set_back_voltages_def always_raises_def)
qed

lemma and_then_raised_state:
  assumes "always_raises m"
  shows "fst (and_then m k s) = fst (m s)"
proof -
  from assms have "isl (snd (m s))" by (simp add: always_raises_def)
  then show ?thesis by (cases "m s") (auto simp: and_then_def split: sum.splits)
qed




lemma raises_case_prod:
  assumes "\<And>a b. always_raises (k a b)"
  shows "always_raises (case_prod k x)"
  using assms by (cases x) simp

section \<open>Characterizing gates leaves the voltages\<close>










section \<open>Normalization constants\<close>

lemma raises_record_readings:
  "always_raises (record_readings D i (read_meth # rest) normalization_constants)"
  apply simp
  apply (rule raises_and_then_right)
  apply (rule raises_and_then_right)
  apply (rule raises_and_then_left)
  apply (simp add: tuple_setitem_def raises_pure)
  done

lemma keeps_measurement_get: "keeps f (measurement_get D read_meth)"
  unfolding measurement_get_def by (intro keeps_and_then keeps_pure keeps_read_hw)

lemma keeps_record_readings:
  "keeps f (record_readings D i read_meths normalization_constants)"
proof (induction read_meths arbitrary: normalization_constants)
  case Nil
  show ?case by (simp add: keeps_ret)
next
  case (Cons read_meth rest)
  show ?case
    by (simp, intro keeps_and_then keeps_measurement_get keeps_pure Cons.IH)
qed

lemma and_then_raised_first:
  assumes "isl (snd (and_then m k s))" and "\<And>x s'. \<not> isl (snd (k x s'))"
  shows "fst (and_then m k s) = fst (m s)"
  using assms by (cases "m s") (auto simp: and_then_def split: sum.splits)

text \<open>
  The commit is the last statement: a call that raises has written no constants.
\<close>

lemma update_normalization_constants_atomic:
  fixes D :: "'h driver"
  assumes "isl (snd (update_normalization_constants D w))"
  shows "device_normalization_constants (fst (update_normalization_constants D w))
           = device_normalization_constants w"
proof -
  let ?scope = "set_back_voltages
       (\<lambda>g (w :: 'h world). dc_voltage_get D g (hw w)) (\<lambda>g v. on_hw (dc_voltage_set D g v))
       (device_gates D)
       (and_then (on_hw (all_gates_to_lowest D)) (\<lambda>_.
        and_then (record_readings D 0 (map fst (readout_methods D))
                    (dict_fromkeys (map fst (readout_methods D)) (0, 1))) (\<lambda>lowest.
        and_then (on_hw (all_gates_to_highest D)) (\<lambda>_.
          record_readings D 1 (map fst (readout_methods D)) lowest))))"
  have k: "keeps device_normalization_constants ?scope"
    by (intro keeps_set_back_voltages keeps_and_then keeps_record_readings keeps_on_hw_other)
       simp_all
  have eq: "update_normalization_constants D
              = and_then ?scope
                  (\<lambda>normalization_constants' w.
                     (w\<lparr>device_normalization_constants := normalization_constants'\<rparr>, Inr ()))"
    by (simp add: update_normalization_constants_def Let_def)
  have "fst (update_normalization_constants D w) = fst (?scope w)"
    using assms unfolding eq by (rule and_then_raised_first) simp
  then show ?thesis
    using k by (simp only: keeps_def)
qed

lemma update_normalization_constants_scope:
  fixes D :: "'h driver"
  assumes "readout_methods D \<noteq> []"
  defines "scope \<equiv>
     set_back_voltages
       (\<lambda>g (w :: 'h world). dc_voltage_get D g (hw w)) (\<lambda>g v. on_hw (dc_voltage_set D g v))
       (device_gates D)
       (and_then (on_hw (all_gates_to_lowest D)) (\<lambda>_.
        and_then (record_readings D 0 (map fst (readout_methods D))
                    (dict_fromkeys (map fst (readout_methods D)) (0, 1))) (\<lambda>lowest.
        and_then (on_hw (all_gates_to_highest D)) (\<lambda>_.
          record_readings D 1 (map fst (readout_methods D)) lowest))))"
  shows "always_raises scope" and "keeps device_normalization_constants scope"
    and "update_normalization_constants D
           = and_then scope
               (\<lambda>normalization_constants' w.
                  (w\<lparr>device_normalization_constants := normalization_constants'\<rparr>, Inr ()))"
proof -
  show "update_normalization_constants D
          = and_then scope
              (\<lambda>normalization_constants' w.
                 (w\<lparr>device_normalization_constants := normalization_constants'\<rparr>, Inr ()))"
    by (simp add: update_normalization_constants_def Let_def scope_def)
  obtain k ks where keys: "map fst (readout_methods D) = k # ks"
    using assms(1) by (cases "readout_methods D") auto
  show "always_raises scope"
    unfolding scope_def keys
    by (intro raises_set_back_voltages raises_and_then_right)
       (intro raises_and_then_left raises_record_readings)
  show "keeps device_normalization_constants scope"
    unfolding scope_def
    by (intro keeps_set_back_voltages keeps_and_then keeps_record_readings keeps_on_hw_other)
       simp_all
qed

text \<open>
  C2, on the source. The first reading taken is assigned to an item of the tuple
  \<^verbatim>\<open>(0.0, 1.0)\<close>. For a device with at least one readout channel, whatever the
  collaborators do, the call raises and the normalization constants of the device are
  after it what they were before: no pair is ever written.
\<close>

theorem update_normalization_constants_never_commits:
  assumes "readout_methods D \<noteq> []"
  shows "(\<exists>e. snd (update_normalization_constants D w) = Inl e)
       \<and> device_normalization_constants (fst (update_normalization_constants D w))
           = device_normalization_constants w"
proof -
  note s = update_normalization_constants_scope [OF assms]
  have "always_raises (update_normalization_constants D)"
    unfolding s(3) by (rule raises_and_then_left [OF s(1)])
  then have "isl (snd (update_normalization_constants D w))"
    by (simp add: always_raises_def)
  moreover
  have "fst (update_normalization_constants D w)
          = fst (set_back_voltages
                   (\<lambda>g w. dc_voltage_get D g (hw w)) (\<lambda>g v. on_hw (dc_voltage_set D g v))
                   (device_gates D)
                   (and_then (on_hw (all_gates_to_lowest D)) (\<lambda>_.
                    and_then (record_readings D 0 (map fst (readout_methods D))
                                (dict_fromkeys (map fst (readout_methods D)) (0, 1))) (\<lambda>lowest.
                    and_then (on_hw (all_gates_to_highest D)) (\<lambda>_.
                      record_readings D 1 (map fst (readout_methods D)) lowest)))) w)"
    unfolding s(3) by (rule and_then_raised_state [OF s(1)])
  then have "device_normalization_constants (fst (update_normalization_constants D w))
          = device_normalization_constants w"
    using s(2) by (simp only: keeps_def)
  ultimately show ?thesis by (auto simp: isl_def)
qed

theorem update_normalization_constants_never_commits_witness:
  "readout_methods (sim_driver sim_never) \<noteq> []
   \<and> snd (update_normalization_constants (sim_driver sim_never) sim_world0) = Inl TypeError
   \<and> device_normalization_constants
        (fst (update_normalization_constants (sim_driver sim_never) sim_world0))
       = [(''dc_current'', (1, 3)), (''dc_sensor'', (0, 2))]"
proof -
  have a: "readout_methods (sim_driver sim_never) \<noteq> []"
    by (simp add: sim_driver_def)
  have b: "snd (update_normalization_constants (sim_driver sim_never) sim_world0) = Inl TypeError"
    by (simp add: update_normalization_constants_def Let_def sim_driver_def sim_world0_def Tuner_init_def
          set_back_voltages_def sim_dc_get_def sim_dc_set_def sim_hw0_def try_finally_def
          and_then_def on_hw_def measurement_get_def pure_def dict_getitem_def read_hw_def
          dict_fromkeys_def tuple_setitem_def)
  have c: "device_normalization_constants sim_world0
             = [(''dc_current'', (1, 3)), (''dc_sensor'', (0, 2))]"
    by (simp add: sim_world0_def Tuner_init_def)
  from update_normalization_constants_never_commits [OF a, of sim_world0] c
  have "device_normalization_constants
          (fst (update_normalization_constants (sim_driver sim_never) sim_world0))
          = [(''dc_current'', (1, 3)), (''dc_sensor'', (0, 2))]"
    by simp
  with a b show ?thesis by blast
qed




section \<open>Signal presence\<close>

lemma keeps_update_normalization_constants:
  fixes D :: "'h driver"
  shows "keeps tuner_normalization_constants (update_normalization_constants D)"
proof -
  let ?scope = "set_back_voltages
       (\<lambda>g (w :: 'h world). dc_voltage_get D g (hw w)) (\<lambda>g v. on_hw (dc_voltage_set D g v))
       (device_gates D)
       (and_then (on_hw (all_gates_to_lowest D)) (\<lambda>_.
        and_then (record_readings D 0 (map fst (readout_methods D))
                    (dict_fromkeys (map fst (readout_methods D)) (0, 1))) (\<lambda>lowest.
        and_then (on_hw (all_gates_to_highest D)) (\<lambda>_.
          record_readings D 1 (map fst (readout_methods D)) lowest))))"
  have scope: "keeps tuner_normalization_constants ?scope"
    by (intro keeps_set_back_voltages keeps_and_then keeps_record_readings keeps_on_hw_other)
       simp_all
  have commit: "\<And>constants. keeps tuner_normalization_constants
                  (\<lambda>w :: 'h world. (w\<lparr>device_normalization_constants := constants\<rparr>, Inr ()))"
    by (simp add: keeps_def)
  have "keeps tuner_normalization_constants
          (and_then ?scope
             (\<lambda>constants (w :: 'h world).
                (w\<lparr>device_normalization_constants := constants\<rparr>, Inr ())))"
    by (rule keeps_and_then [OF scope commit])
  then show ?thesis
    by (simp add: update_normalization_constants_def Let_def)
qed

text \<open>
  C8, on the source. \<^verbatim>\<open>getting_signal\<close> reads the constants from
  \<^verbatim>\<open>self.normalization_constants()\<close>, an attribute a tuner does not have: on a tuner as
  its constructor leaves it the call raises \<^verbatim>\<open>AttributeError\<close>, for every device, every
  threshold and every choice of channels, and it still does after the normalization
  constants of the device have been measured. For the simulated device, whose channel
  \<open>dc_current\<close> reads 3 with constants \<open>(1, 3)\<close> and threshold \<open>1/2\<close>, no verdict is returned.
\<close>

theorem getting_signal_attribute_error:
  "getting_signal D thresholds readout_method_to_check
     (Tuner_init settings classifier_names h constants) = Inl AttributeError
   \<and> getting_signal D thresholds readout_method_to_check
       (fst (update_normalization_constants D'
               (Tuner_init settings classifier_names h constants))) = Inl AttributeError
   \<and> getting_signal (sim_driver sim_never) sim_thresholds None sim_world0 = Inl AttributeError"
proof -
  have absent: "tuner_normalization_constants
                  (Tuner_init settings classifier_names h constants) = None"
    by (simp add: Tuner_init_def)
  have "tuner_normalization_constants
          (fst (update_normalization_constants D'
                  (Tuner_init settings classifier_names h constants))) = None"
    using keeps_update_normalization_constants [of D'] absent by (simp add: keeps_def)
  then show ?thesis
    by (simp add: getting_signal_def absent sim_world0_def Tuner_init_def)
qed

section \<open>The forward scan\<close>

lemma positions_lookup:
  "i < length bs \<Longrightarrow> map_of (positions bs) (int i) = Some (bs ! i)"
proof -
  assume i: "i < length bs"
  have d: "distinct (map int [0..<length bs])"
    by (simp add: distinct_map inj_on_def)
  have "(int i, bs ! i) \<in> set (positions bs)"
    using i by (auto simp: positions_def set_zip intro!: exI [of _ i])
  moreover have "distinct (map fst (positions bs))"
    using d by (simp add: positions_def)
  ultimately show ?thesis by (simp add: map_of_eq_Some_iff)
qed

lemma positions_update:
  "i < length bs \<Longrightarrow> dict_setitem (positions bs) (int i) b = positions (bs[i := b])"
proof -
  assume i: "i < length bs"
  have mem: "int i \<in> fst ` set (positions bs)"
    using i by (force simp: positions_def set_zip)
  have "map (\<lambda>(k', v'). if k' = int i then (k', b) else (k', v')) (positions bs)
          = positions (bs[i := b])"
    by (rule nth_equalityI) (auto simp: positions_def nth_list_update)
  with mem show ?thesis by (simp add: dict_setitem_def)
qed

lemma positions_all: "list_all snd (positions bs) = list_all id bs"
  by (simp add: positions_def list_all_iff set_zip) (metis in_set_conv_nth)

lemma positions_fromkeys:
  "dict_fromkeys (map int [0..<k]) False = positions (replicate k False)"
proof -
  have "distinct (map int [0..<k])" by (simp add: distinct_map inj_on_def)
  then have "remdups (map int [0..<k]) = map int [0..<k]" by (rule distinct_remdups_id)
  then have rd: "remdups (map int [0..<k]) = map int [0..<k]" .
  show ?thesis
    unfolding dict_fromkeys_def positions_def rd
    by (rule nth_equalityI) auto
qed

text \<open>
  What the scan assumes of the collaborators: setting the driving gate completes and stores
  the voltage; the stage leaves the hardware as it is and reports the verdict for the swept
  gate at the voltage of the driving gate; the status can be read.
\<close>

lemma sweep_verdict:
  assumes stage: "\<forall>cfg h v g. dc_voltage_get D gate_to_set h = Inr v
                    \<and> cfg_gates_to_sweep cfg = [g] \<longrightarrow>
                    (\<exists>reasons result.
                       run_stage D cfg h = (h, Inr (verdict v g, reasons, result)))"
      and status: "\<forall>h. \<exists>st. get_gate_status D h = Inr st"
      and volt: "dc_voltage_get D gate_to_set (hw w) = Inr v"
  shows "\<exists>result entry.
           sweep D [g] update name comment w = (w, Inr (verdict v g, result, entry))"
proof -
  let ?cfg = "\<lparr>cfg_data_settings = data_settings w, cfg_gates_to_sweep = [g],
               cfg_update_settings = update\<rparr>"
  obtain reasons result where
    run: "run_stage D ?cfg (hw w) = (hw w, Inr (verdict v g, reasons, result))"
    using stage volt by (metis stage_config.select_convs(2))
  obtain st where st: "get_gate_status D (hw w) = Inr st"
    using status by blast
  show ?thesis
    by (simp add: sweep_def and_then_def on_hw_def read_hw_def ret_def run st)
qed

lemma sweep_dependent_step:
  assumes stage: "\<forall>cfg h v g. dc_voltage_get D gate_to_set h = Inr v
                    \<and> cfg_gates_to_sweep cfg = [g] \<longrightarrow>
                    (\<exists>reasons result.
                       run_stage D cfg h = (h, Inr (verdict v g, reasons, result)))"
      and status: "\<forall>h. \<exists>st. get_gate_status D h = Inr st"
      and volt: "dc_voltage_get D gate_to_set (hw w) = Inr v"
      and len: "length bs = n + length gates"
  shows "\<exists>last_gate' tuningresult'.
           sweep_dependent D (enumerate n gates) (positions bs) last_gate
             tuningresult w
           = (w, Inr (positions (take n bs @ respond_step verdict v gates (drop n bs)),
                      last_gate', tuningresult'))"
  using len
proof (induction gates arbitrary: n bs last_gate tuningresult)
  case Nil
  then show ?case by (simp add: ret_def respond_step_def)
next
  case (Cons g gates)
  have n: "n < length bs" using Cons.prems by simp
  have len1: "length bs = Suc n + length gates"
    using Cons.prems by simp
  have len2: "length (bs[n := True]) = Suc n + length gates"
    using Cons.prems by simp
  obtain result entry where
    sw: "sweep D [g] False (''characterization_'' @ gate_name D g) None w
           = (w, Inr (verdict v g, result, entry))"
    using sweep_verdict [OF stage status volt] by blast
  have split: "drop n bs = bs ! n # drop (Suc n) bs"
    using n by (simp add: Cons_nth_drop_Suc)
  show ?case
  proof (cases "bs ! n")
    case True
    obtain l t where
      "sweep_dependent D (enumerate (Suc n) gates) (positions bs) last_gate
         tuningresult w
       = (w, Inr (positions (take (Suc n) bs @ respond_step verdict v gates (drop (Suc n) bs)),
                  l, t))"
      using Cons.IH [OF len1] by blast
    then show ?thesis
      using True n
      by (simp add: and_then_def pure_def dict_getitem_def positions_lookup split
            respond_step_def take_Suc_conv_app_nth)
  next
    case False
    show ?thesis
    proof (cases "verdict v g")
      case True
      obtain l t where
        "sweep_dependent D (enumerate (Suc n) gates)
           (positions (bs[n := True])) (Some n) (tuningresult @ [entry]) w
         = (w, Inr (positions (take (Suc n) (bs[n := True])
                      @ respond_step verdict v gates (drop (Suc n) (bs[n := True]))),
                    l, t))"
        using Cons.IH [OF len2] by blast
      then show ?thesis
        using True False n sw
        by (simp add: and_then_def pure_def dict_getitem_def positions_lookup split
              respond_step_def take_Suc_conv_app_nth positions_update)
    next
      case nv: False
      obtain l t where
        "sweep_dependent D (enumerate (Suc n) gates) (positions bs) last_gate
           (tuningresult @ [entry]) w
         = (w, Inr (positions (take (Suc n) bs @ respond_step verdict v gates (drop (Suc n) bs)),
                    l, t))"
        using Cons.IH [OF len1] by blast
      then show ?thesis
        using nv False n sw
        by (simp add: and_then_def pure_def dict_getitem_def positions_lookup split
              respond_step_def take_Suc_conv_app_nth)
    qed
  qed
qed


lemma length_respond_step:
  "length bs = length gates \<Longrightarrow> length (respond_step verdict v gates bs) = length gates"
  by (simp add: respond_step_def)

lemma forward_scan_stop_index:
  fixes D :: "'h driver"
  assumes setter: "\<forall>v h. \<exists>h'. dc_voltage_set D gate_to_set v h = (h', Inr ())
                             \<and> dc_voltage_get D gate_to_set h' = Inr v"
      and stage: "\<forall>cfg h v g. dc_voltage_get D gate_to_set h = Inr v
                    \<and> cfg_gates_to_sweep cfg = [g] \<longrightarrow>
                    (\<exists>reasons result.
                       run_stage D cfg h = (h, Inr (verdict v g, reasons, result)))"
      and status: "\<forall>h. \<exists>st. get_gate_status D h = Inr st"
      and len: "length bs = length gates"
  shows "\<exists>w' bs' last_gate' tuningresult'.
           forward_scan D gate_to_set gates v_steps (positions bs) last_gate tuningresult w
             = (w', Inr (positions bs', last_gate', tuningresult'))
           \<and> (case stop_index verdict gates v_steps bs of
                 None \<Rightarrow> hw w' = hw w
               | Some j \<Rightarrow> dc_voltage_get D gate_to_set (hw w') = Inr (v_steps ! j))"
  using len
proof (induction v_steps arbitrary: bs last_gate tuningresult w)
  case Nil
  show ?case by (simp add: ret_def) blast
next
  case (Cons v v_steps)
  obtain h1 where set1: "dc_voltage_set D gate_to_set v (hw w) = (h1, Inr ())"
    and volt: "dc_voltage_get D gate_to_set h1 = Inr v"
    using setter by blast
  let ?w1 = "w\<lparr>hw := h1\<rparr>"
  let ?bs' = "respond_step verdict v gates bs"
  have volt1: "dc_voltage_get D gate_to_set (hw ?w1) = Inr v"
    using volt by simp
  have len0: "length bs = 0 + length gates"
    using Cons.prems by simp
  obtain l t where
    step: "sweep_dependent D (enumerate 0 gates) (positions bs) last_gate tuningresult ?w1
             = (?w1, Inr (positions ?bs', l, t))"
    using sweep_dependent_step [OF stage status volt1 len0, of last_gate tuningresult]
    by auto
  have first: "forward_scan D gate_to_set gates (v # v_steps) (positions bs) last_gate
                 tuningresult w
               = (if list_all id ?bs' then (?w1, Inr (positions ?bs', l, t))
                  else forward_scan D gate_to_set gates v_steps (positions ?bs') l t ?w1)"
    by (simp add: and_then_def on_hw_def set1 step positions_all ret_def)
  show ?case
  proof (cases "list_all id ?bs'")
    case True
    then show ?thesis
      using first volt by (auto simp: Let_def)
  next
    case False
    obtain w' bs'' l' t' where
      rest: "forward_scan D gate_to_set gates v_steps (positions ?bs') l t ?w1
               = (w', Inr (positions bs'', l', t'))"
      and stop: "case stop_index verdict gates v_steps ?bs' of
                   None \<Rightarrow> hw w' = hw ?w1
                 | Some j \<Rightarrow> dc_voltage_get D gate_to_set (hw w') = Inr (v_steps ! j)"
      using Cons.IH [OF length_respond_step [OF Cons.prems]] by blast
    have "case stop_index verdict gates (v # v_steps) bs of
            None \<Rightarrow> hw w' = hw w
          | Some j \<Rightarrow> dc_voltage_get D gate_to_set (hw w') = Inr ((v # v_steps) ! j)"
      using False stop volt
      by (cases "stop_index verdict gates v_steps ?bs'") (simp_all add: Let_def)
    then show ?thesis
      using first rest False by auto
  qed
qed

lemma respond_step_nth:
  "length bs = length gates \<Longrightarrow> i < length gates \<Longrightarrow>
     respond_step verdict v gates bs ! i = (bs ! i \<or> verdict v (gates ! i))"
  by (simp add: respond_step_def)

lemma stop_index_first_all:
  assumes "length bs = length gates"
      and "j < length vs"
      and "\<forall>i<length gates. bs ! i \<or> (\<exists>j'\<le>j. verdict (vs ! j') (gates ! i))"
      and "\<forall>j''<j. \<exists>i<length gates. \<not> bs ! i \<and> (\<forall>j'\<le>j''. \<not> verdict (vs ! j') (gates ! i))"
  shows "stop_index verdict gates vs bs = Some j"
  using assms
proof (induction vs arbitrary: bs j)
  case Nil
  then show ?case by simp
next
  case (Cons v vs)
  let ?bs' = "respond_step verdict v gates bs"
  have len': "length ?bs' = length gates"
    using Cons.prems(1) by (rule length_respond_step)
  have nth': "\<And>i. i < length gates \<Longrightarrow> ?bs' ! i = (bs ! i \<or> verdict v (gates ! i))"
    using Cons.prems(1) by (rule respond_step_nth)
  have all_iff: "list_all id ?bs' \<longleftrightarrow> (\<forall>i<length gates. ?bs' ! i)"
    using len' by (simp add: list_all_length)
  show ?case
  proof (cases j)
    case 0
    with Cons.prems(3) have "\<forall>i<length gates. ?bs' ! i"
      by (simp add: nth')
    then show ?thesis using 0 all_iff by (simp add: Let_def)
  next
    case (Suc j0)
    from Cons.prems(4) [rule_format, of 0] Suc
    obtain i0 where i0: "i0 < length gates" "\<not> bs ! i0" "\<not> verdict v (gates ! i0)"
      by auto
    then have not_all: "\<not> list_all id ?bs'"
      using all_iff nth' by blast
    have j0: "j0 < length vs" using Cons.prems(2) Suc by simp
    have by_j0: "\<forall>i<length gates. ?bs' ! i \<or> (\<exists>j'\<le>j0. verdict (vs ! j') (gates ! i))"
    proof (intro allI impI)
      fix i assume i: "i < length gates"
      with Cons.prems(3) have "bs ! i \<or> (\<exists>j'\<le>Suc j0. verdict ((v # vs) ! j') (gates ! i))"
        using Suc by simp
      then show "?bs' ! i \<or> (\<exists>j'\<le>j0. verdict (vs ! j') (gates ! i))"
      proof
        assume "bs ! i"
        then show ?thesis using nth' [OF i] by simp
      next
        assume "\<exists>j'\<le>Suc j0. verdict ((v # vs) ! j') (gates ! i)"
        then obtain j' where j': "j' \<le> Suc j0" "verdict ((v # vs) ! j') (gates ! i)"
          by blast
        show ?thesis
        proof (cases j')
          case 0
          with j' show ?thesis using nth' [OF i] by simp
        next
          case (Suc m)
          with j' have "m \<le> j0" "verdict (vs ! m) (gates ! i)" by simp_all
          then show ?thesis by blast
        qed
      qed
    qed
    have before: "\<forall>j''<j0. \<exists>i<length gates.
                    \<not> ?bs' ! i \<and> (\<forall>j'\<le>j''. \<not> verdict (vs ! j') (gates ! i))"
    proof (intro allI impI)
      fix j'' assume "j'' < j0"
      then have "Suc j'' < j" using Suc by simp
      with Cons.prems(4) obtain i where i: "i < length gates" "\<not> bs ! i"
        and none: "\<forall>j'\<le>Suc j''. \<not> verdict ((v # vs) ! j') (gates ! i)"
        by blast
      from none have "\<not> verdict v (gates ! i)" by (auto dest: spec [of _ 0])
      moreover from none have "\<forall>j'\<le>j''. \<not> verdict (vs ! j') (gates ! i)"
        by (auto dest: spec [of _ "Suc _"])
      ultimately show "\<exists>i<length gates.
                         \<not> ?bs' ! i \<and> (\<forall>j'\<le>j''. \<not> verdict (vs ! j') (gates ! i))"
        using i nth' by blast
    qed
    have "stop_index verdict gates vs ?bs' = Some j0"
      using Cons.IH [OF len' j0 by_j0 before] .
    then show ?thesis using not_all Suc by (simp add: Let_def)
  qed
qed


lemma stop_index_max_first:
  assumes gates: "gates \<noteq> []"
      and responds: "\<forall>g\<in>set gates. \<exists>j<length vs. verdict (vs ! j) g"
  shows "stop_index verdict gates vs (replicate (length gates) False)
           = Some (Max ((\<lambda>g. LEAST j. verdict (vs ! j) g) ` set gates))"
proof -
  let ?first = "\<lambda>g. LEAST j. verdict (vs ! j) g"
  let ?J = "Max (?first ` set gates)"
  have fin: "finite (?first ` set gates)" and ne: "?first ` set gates \<noteq> {}"
    using gates by simp_all
  have first_ok: "\<And>g. g \<in> set gates \<Longrightarrow> verdict (vs ! ?first g) g"
    using responds by (metis (mono_tags, lifting) LeastI)
  have first_lt: "\<And>g. g \<in> set gates \<Longrightarrow> ?first g < length vs"
    using responds by (metis (mono_tags, lifting) Least_le le_less_trans)
  have J_lt: "?J < length vs"
    using first_lt fin ne by (metis (no_types, lifting) Max_in imageE)
  have by_J: "\<forall>i<length gates.
                replicate (length gates) False ! i \<or> (\<exists>j'\<le>?J. verdict (vs ! j') (gates ! i))"
  proof (intro allI impI)
    fix i assume i: "i < length gates"
    then have mem: "gates ! i \<in> set gates" by simp
    then have "?first (gates ! i) \<le> ?J" using fin by (simp add: Max_ge)
    with first_ok [OF mem]
    show "replicate (length gates) False ! i \<or> (\<exists>j'\<le>?J. verdict (vs ! j') (gates ! i))"
      by blast
  qed
  have before: "\<forall>j''<?J. \<exists>i<length gates.
                  \<not> replicate (length gates) False ! i
                  \<and> (\<forall>j'\<le>j''. \<not> verdict (vs ! j') (gates ! i))"
  proof (intro allI impI)
    fix j'' assume lt: "j'' < ?J"
    obtain g where g: "g \<in> set gates" "?first g = ?J"
      using Max_in [OF fin ne] by auto
    then obtain i where i: "i < length gates" "gates ! i = g"
      by (auto simp: in_set_conv_nth)
    have "\<forall>j'\<le>j''. \<not> verdict (vs ! j') g"
      using lt g(2) by (metis (mono_tags, lifting) le_less_trans not_less_Least)
    then show "\<exists>i<length gates.
                 \<not> replicate (length gates) False ! i
                 \<and> (\<forall>j'\<le>j''. \<not> verdict (vs ! j') (gates ! i))"
      using i by auto
  qed
  show ?thesis
    by (rule stop_index_first_all [OF _ J_lt by_J before]) simp
qed

text \<open>
  The forward scan, in general. With the layout ids being the positions of the gates, and
  every dependent gate responding at some step, the scan completes with the driving gate at
  the voltage of the step \<open>max (s1 .. sk)\<close>, where \<open>si\<close> is the first step at which gate
  \<open>i\<close> responds: it stops at that step, not before and not after.
\<close>

lemma forward_scan_stops_at_last_first_response:
  fixes D :: "'h driver"
  assumes setter: "\<forall>v h. \<exists>h'. dc_voltage_set D gate_to_set v h = (h', Inr ())
                             \<and> dc_voltage_get D gate_to_set h' = Inr v"
      and stage: "\<forall>cfg h v g. dc_voltage_get D gate_to_set h = Inr v
                    \<and> cfg_gates_to_sweep cfg = [g] \<longrightarrow>
                    (\<exists>reasons result.
                       run_stage D cfg h = (h, Inr (verdict v g, reasons, result)))"
      and status: "\<forall>h. \<exists>st. get_gate_status D h = Inr st"
      and layout: "map (layout_id D) gates = map int [0..<length gates]"
      and gates: "gates \<noteq> []"
      and responds: "\<forall>g\<in>set gates. \<exists>j<length v_steps. verdict (v_steps ! j) g"
  shows "\<exists>w' result.
           forward_scan D gate_to_set gates v_steps
             (dict_fromkeys (map (layout_id D) gates) False) None [] w = (w', Inr result)
           \<and> dc_voltage_get D gate_to_set (hw w')
               = Inr (v_steps ! Max ((\<lambda>g. LEAST j. verdict (v_steps ! j) g) ` set gates))"
proof -
  have skip0: "dict_fromkeys (map (layout_id D) gates) False
                 = positions (replicate (length gates) False)"
    by (simp add: layout positions_fromkeys)
  have len: "length (replicate (length gates) False) = length gates" by simp
  from forward_scan_stop_index [OF setter stage status len, of v_steps None "[]" w]
  show ?thesis
    unfolding skip0 stop_index_max_first [OF gates responds] by auto
qed

section \<open>Initial ranges\<close>

lemma measure_initial_ranges_raises:
  fixes D :: "'h driver"
  shows "always_raises (measure_initial_ranges D gate_to_set gates_to_sweep voltage_step)"
  unfolding always_raises_def
proof
  fix w :: "'h world"
  let ?v_range = "safety_range D gate_to_set"
  have tail: "\<And>n. always_raises
     (and_then
        (device_specific_settings
           (and_then
              (pure (linspace D (max (fst ?v_range) (snd ?v_range))
                       (min (fst ?v_range) (snd ?v_range)) n))
              (\<lambda>v_steps. forward_scan D gate_to_set gates_to_sweep v_steps
                           (dict_fromkeys (map (layout_id D) gates_to_sweep) False) None [])))
        (\<lambda>(skip_gates', last_gate', tuningresult').
           and_then (read_hw (dc_voltage_get D gate_to_set)) (\<lambda>lower.
           and_then (pure (tuple_setitem (None, None) 0 (Some lower)))
             (\<lambda>init_range'.
                and_then (on_hw (all_gates_to_highest D)) (\<lambda>_.
                  (raise AttributeError
                     :: ('h world, (real option \<times> real option) \<times> tuningresult) prog))))))"
    apply (rule raises_and_then_right)
    apply (rule raises_case_prod)
    apply (rule raises_case_prod)
    apply (rule raises_and_then_right)
    apply (rule raises_and_then_left)
    apply (simp add: tuple_setitem_def raises_pure)
    done
  have "always_raises
     (and_then (on_hw (all_gates_to_highest D)) (\<lambda>_.
        and_then (pure (n_steps ?v_range voltage_step)) (\<lambda>n.
          and_then
            (device_specific_settings
               (and_then
                  (pure (linspace D (max (fst ?v_range) (snd ?v_range))
                           (min (fst ?v_range) (snd ?v_range)) n))
                  (\<lambda>v_steps. forward_scan D gate_to_set gates_to_sweep v_steps
                               (dict_fromkeys (map (layout_id D) gates_to_sweep) False) None [])))
            (\<lambda>(skip_gates', last_gate', tuningresult').
               and_then (read_hw (dc_voltage_get D gate_to_set)) (\<lambda>lower.
               and_then (pure (tuple_setitem (None, None) 0 (Some lower)))
                 (\<lambda>init_range'.
                    and_then (on_hw (all_gates_to_highest D)) (\<lambda>_.
                      (raise AttributeError
                     :: ('h world, (real option \<times> real option) \<times> tuningresult) prog))))))))"
    by (intro raises_and_then_right tail)
  then show "isl (snd (measure_initial_ranges D gate_to_set gates_to_sweep voltage_step w))"
    by (simp add: measure_initial_ranges_def Let_def always_raises_def raise_def)
qed

lemma sim_steps: "sim_linspace 0 (-2) (PyFloat 3) = Inr [0, -1, -2]"
  by (simp add: sim_linspace_def linspace_samples_def upt_rec)

text \<open>
  The scan reads \<^verbatim>\<open>skip_gates\<close> at the position of a gate, while its keys are layout
  ids: sweeping the one gate with layout id 1 raises \<^verbatim>\<open>KeyError\<close> at the first step.
\<close>

lemma measure_initial_ranges_key_error:
  "snd (measure_initial_ranges (sim_driver sim_below_minus_one) 1 [0] (2 / 3) sim_world0)
     = Inl KeyError"
  by (simp add: measure_initial_ranges_def Let_def sim_driver_def sim_world0_def Tuner_init_def
        n_steps_def sim_steps dict_fromkeys_def device_specific_settings_def
        update_data_settings_def try_finally_def and_then_def on_hw_def read_hw_def pure_def
        ret_def raise_def dict_getitem_def sim_dc_set_def enumerate_eq_zip upt_rec)

text \<open>
  C4, on the source. A top barrier with safety range \<open>(-2, 0)\<close> stepped over
  \<open>0, -1, -2\<close>, and one dependent gate that first responds at \<open>-1\<close>: the scan stops
  at the second step with the top barrier at \<open>-1\<close>, and storing that voltage as the lower
  bound raises \<^verbatim>\<open>TypeError\<close>. No range is returned.
\<close>

theorem measure_initial_ranges_type_error:
  "snd (measure_initial_ranges (sim_driver sim_below_minus_one) 0 [1] (2 / 3) sim_world0)
     = Inl TypeError
   \<and> sim_dc_get 0
        (hw (fst (measure_initial_ranges (sim_driver sim_below_minus_one) 0 [1] (2 / 3)
                    sim_world0)))
       = Inr (-1)"
  by (simp add: measure_initial_ranges_def Let_def sim_driver_def sim_world0_def Tuner_init_def
        n_steps_def sim_steps dict_fromkeys_def device_specific_settings_def
        update_data_settings_def try_finally_def and_then_def on_hw_def read_hw_def pure_def
        ret_def raise_def sweep_def dict_getitem_def dict_setitem_def tuple_setitem_def
        sim_dc_set_def sim_dc_get_def sim_hw0_def sim_below_minus_one_def enumerate_eq_zip
        upt_rec)

section \<open>The count of steps\<close>

lemma n_steps_is_float:
  "voltage_step \<noteq> 0 \<Longrightarrow> \<exists>q. n_steps v_range voltage_step = Inr (PyFloat q)"
  by (simp add: n_steps_def)

text \<open>
  With a \<open>linspace\<close> that drops the fraction, a range of width 2 and a step of 3/4 give two
  steps, one less than the ceiling of 8/3.
\<close>

lemma sim_linspace_truncates:
  "n_steps (-2, 0) (3 / 4) = Inr (PyFloat (8 / 3))
   \<and> sim_linspace 0 (-2) (PyFloat (8 / 3)) = Inr [0, -2]
   \<and> \<lceil>8 / 3 :: real\<rceil> = 3"
  by (simp add: n_steps_def sim_linspace_def linspace_samples_def upt_rec)

text \<open>
  C5, on the source. The count is the quotient of line 297, a float, and it is handed to
  \<^verbatim>\<open>np.linspace\<close> as it is. With a \<open>linspace\<close> that refuses a float count, a tuner with a
  pinch-off classifier and a step other than zero, the call raises \<^verbatim>\<open>TypeError\<close> where
  the steps are made, and the hardware is left as \<^verbatim>\<open>all_gates_to_highest\<close> left it: the
  driving gate is not stepped once, whatever the width and the step.
\<close>

theorem measure_initial_ranges_refused_count:
  assumes "\<forall>start stop x. linspace D start stop (PyFloat x) = Inl TypeError"
      and "''pinchoff'' \<in> set (classifiers w)"
      and "voltage_step \<noteq> 0"
      and "all_gates_to_highest D (hw w) = (h1, Inr ())"
  shows "snd (measure_initial_ranges D gate_to_set gates_to_sweep voltage_step w) = Inl TypeError
       \<and> hw (fst (measure_initial_ranges D gate_to_set gates_to_sweep voltage_step w)) = h1"
  using assms
  by (simp add: measure_initial_ranges_def Let_def n_steps_def and_then_def on_hw_def pure_def
        device_specific_settings_def update_data_settings_def try_finally_def)

theorem measure_initial_ranges_refused_count_witness:
  "(\<forall>start stop x. linspace (sim_numpy_driver sim_always) start stop (PyFloat x) = Inl TypeError)
   \<and> ''pinchoff'' \<in> set (classifiers sim_world0)
   \<and> (1 :: real) \<noteq> 0
   \<and> all_gates_to_highest (sim_numpy_driver sim_always) (hw sim_world0)
       = (fst (all_gates_to_highest (sim_numpy_driver sim_always) (hw sim_world0)), Inr ())
   \<and> snd (measure_initial_ranges (sim_numpy_driver sim_always) 0 [1] 1 sim_world0)
       = Inl TypeError
   \<and> sim_dc_get 0
        (hw (fst (measure_initial_ranges (sim_numpy_driver sim_always) 0 [1] 1 sim_world0)))
       = Inr 0"
proof -
  have a: "\<forall>start stop x.
             linspace (sim_numpy_driver sim_always) start stop (PyFloat x) = Inl TypeError"
    by (simp add: sim_numpy_driver_def np_linspace_def)
  have b: "''pinchoff'' \<in> set (classifiers sim_world0)"
    by (simp add: sim_world0_def Tuner_init_def)
  have c: "(1 :: real) \<noteq> 0" by simp
  have d: "all_gates_to_highest (sim_numpy_driver sim_always) (hw sim_world0)
             = (fst (all_gates_to_highest (sim_numpy_driver sim_always) (hw sim_world0)), Inr ())"
    by (simp add: sim_numpy_driver_def sim_driver_def and_then_def sim_dc_set_def)
  have e: "sim_dc_get 0 (fst (all_gates_to_highest (sim_numpy_driver sim_always) (hw sim_world0)))
             = Inr 0"
    by (simp add: sim_numpy_driver_def sim_driver_def and_then_def sim_dc_set_def sim_dc_get_def)
  note R = measure_initial_ranges_refused_count [OF a b c d, of 0 "[1]"]
  from R e have "sim_dc_get 0
        (hw (fst (measure_initial_ranges (sim_numpy_driver sim_always) 0 [1] 1 sim_world0)))
       = Inr 0"
    by simp
  with a b c d R show ?thesis by blast
qed

section \<open>The reverse probe is never reached\<close>

lemma sim_feature_steps: "sim_linspace 0 (-4) (PyFloat 2) = Inr [0, -4]"
  by (simp add: sim_linspace_def linspace_samples_def upt_rec)


text \<open>
  C7, on the source. A stage that succeeds at once with a low-voltage feature of \<open>-5\<close>, and
  a driving gate with safety range \<open>(-4, 0)\<close>: the call raises \<^verbatim>\<open>TypeError\<close> and returns
  no upper bound, with the \<open>linspace\<close> of today where the steps are made, and with one that
  drops the fraction right after the first step of the forward scan, the driving gate
  at \<open>0\<close>.
\<close>

theorem measure_initial_ranges_no_upper_bound:
  "snd (measure_initial_ranges (sim_feature_driver\<lparr>linspace := np_linspace\<rparr>) 0 [1] 2 sim_world0)
     = Inl TypeError
   \<and> snd (measure_initial_ranges sim_feature_driver 0 [1] 2 sim_world0) = Inl TypeError
   \<and> sim_dc_get 0 (hw (fst (measure_initial_ranges sim_feature_driver 0 [1] 2 sim_world0)))
       = Inr 0"
  by (simp add: measure_initial_ranges_def Let_def sim_feature_driver_def sim_driver_def
        sim_world0_def Tuner_init_def np_linspace_def
        n_steps_def sim_feature_steps dict_fromkeys_def device_specific_settings_def
        update_data_settings_def try_finally_def and_then_def on_hw_def read_hw_def pure_def
        ret_def raise_def sweep_def dict_getitem_def dict_setitem_def tuple_setitem_def
        sim_dc_set_def sim_dc_get_def sim_hw0_def sim_always_def enumerate_eq_zip
        upt_rec)

end
